theory Spec2Isabelle
  imports Main "HOL-Library.Word"
begin

unbundle bit_operations_syntax

section \<open>Machine types\<close>

type_synonym u32 = "32 word"
type_synonym u64 = "64 word"

section \<open>clock.h\<close>

text \<open>
  \<^verbatim>\<open>struct timespec\<close> as filled in by \<^verbatim>\<open>clock_gettime(CLOCK_MONOTONIC, &ts)\<close>.
  Both fields are 64-bit signed on the target; the casts to \<^verbatim>\<open>uint64_t\<close> keep the bits,
  so the fields are carried as 64-bit words.
\<close>

record timespec =
  tv_sec :: u64
  tv_nsec :: u64

definition cf_getms :: "timespec \<Rightarrow> u64" where
  "cf_getms ts = (tv_nsec ts div 1000000) + (tv_sec ts * 1000)"

definition cf_getus :: "timespec \<Rightarrow> u64" where
  "cf_getus ts = (tv_nsec ts div 1000) + (tv_sec ts * 1000000)"

definition cf_getns :: "timespec \<Rightarrow> u64" where
  "cf_getns ts = tv_nsec ts + (tv_sec ts * 1000000000)"

section \<open>act.c: constants and types\<close>

definition LO_IO_MIN_SIZE :: u32 where
  "LO_IO_MIN_SIZE = 512"

definition HI_IO_MIN_SIZE :: u32 where
  "HI_IO_MIN_SIZE = 4096"

definition MAX_READ_REQS_QUEUED :: u32 where
  "MAX_READ_REQS_QUEUED = 100000"

text \<open>\<^verbatim>\<open>MAX_SLEEP_LAG_USEC\<close> is an \<^verbatim>\<open>int64_t\<close>, compared with a signed difference.\<close>

definition MAX_SLEEP_LAG_USEC :: int where
  "MAX_SLEEP_LAG_USEC = 1000000 * 10"

definition STAGGER :: u64 where
  "STAGGER = 1000"

definition RW_STAGGER :: u64 where
  "RW_STAGGER = 1000 div 2"

text \<open>
  Modelled from the spec: \<^verbatim>\<open>configuration.h\<close> (the declaration of \<^verbatim>\<open>g_cfg\<close>) is not among
  the sources. The fields are the ones \<^verbatim>\<open>act.c\<close> reads, with the widths of the spec's
  configuration table (\<^verbatim>\<open>record-bytes\<close>, \<^verbatim>\<open>large-block-op-kbytes\<close>, \<^verbatim>\<open>num-queues\<close>,
  \<^verbatim>\<open>max-reqs-queued\<close>: u32). \<open>max_reqs_queued\<close> is the configured \<^verbatim>\<open>max-reqs-queued\<close>
  value; no function of \<^verbatim>\<open>act.c\<close> reads it.
\<close>

record act_cfg =
  num_devices :: u32
  num_queues :: u32
  threads_per_queue :: u32
  record_bytes :: u32
  large_block_ops_bytes :: u32
  max_reqs_queued :: u32

text \<open>
  \<^verbatim>\<open>struct _device\<close>. The field \<^verbatim>\<open>n\<close> is \<open>dev_n\<close> and \<^verbatim>\<open>name\<close> is \<open>dev_name\<close>;
  \<open>p_fd_queue\<close> is the address of the device's descriptor queue in the store of queues
  (\<open>fd_queues\<close> below) and \<open>p_raw_read_histogram\<close> the address of its histogram.
  The thread handles and the histogram tag play no part in any function modelled here
  and are left out.
\<close>

record device =
  dev_name :: string
  dev_n :: u32
  num_large_blocks :: u64
  num_read_offsets :: u64
  min_op_bytes :: u32
  read_bytes :: u32
  p_fd_queue :: nat
  p_raw_read_histogram :: nat

text \<open>
  \<^verbatim>\<open>struct _readreq\<close>. \<^verbatim>\<open>p_device\<close> points into \<^verbatim>\<open>g_devices\<close>, whose entries do not change
  once the devices are set up: the request carries the device record itself. \<^verbatim>\<open>offset\<close>
  and \<^verbatim>\<open>size\<close> are \<open>req_offset\<close> and \<open>req_size\<close>.
\<close>

record readreq =
  p_device :: device
  req_offset :: u64
  req_size :: u32
  start_time :: u64

text \<open>The lines the program prints, without their formatted arguments.\<close>

datatype msg =
  ErrOpenDevice
  | ErrProbeSeek
  | ErrProbeValloc
  | ErrProbeReadAllSizes
  | InfoDeviceGeometry
  | ErrSeekRead
  | ErrSeekWrite
  | ErrTooManyReadReqs
  | ErrDrivesCantKeepUp
  | ErrLargeBlockReadValloc
  | ErrLargeBlockWriteValloc
  | ErrLargeBlockReadsCantKeepUp
  | ErrLargeBlockWritesCantKeepUp

text \<open>
  What the process does to the outside: the lines it prints, the system calls of the
  descriptor pool and of the I/O engine (\<open>fd_get\<close>, \<open>read_from_device\<close>,
  \<open>write_to_device\<close>, \<open>fd_close_all\<close>) with their arguments (descriptor, offset or
  buffer address, length), and the pushes and pops on the request queues (queue index,
  request).
\<close>

datatype event =
  Print msg
  | SysOpen string
  | SysLseek int u64
  | SysRead int u64 u32
  | SysWrite int u64 u32
  | SysClose int
  | QueuePush nat readreq
  | QueuePop nat readreq

text \<open>The four global histograms and the per-device raw-read histograms (by address).\<close>

datatype hist_id =
  LargeBlockReadHistogram
  | LargeBlockWriteHistogram
  | RawReadHistogram
  | ReadHistogram
  | DeviceRawReadHistogram nat

text \<open>
  What a C program does not return from: an integer division by zero (the process is
  killed by SIGFPE), an access outside an array, and a loop that never ends.
\<close>

datatype fault = DivideByZero | OutOfBounds | NoReturn

text \<open>
  The shared state of the process.

  Modelled from the spec: \<^verbatim>\<open>queue.h\<close>, \<^verbatim>\<open>histogram.h\<close> and \<^verbatim>\<open>atomic.h\<close> are not among the
  sources. A \<^verbatim>\<open>cf_queue\<close> is a FIFO (a list: push at the tail, pop at the head); a
  histogram is the list of the data points inserted into it, in order; a \<^verbatim>\<open>cf_atomic32\<close>
  is a 32-bit counter whose increment and decrement return the new value.

  \<open>fd_queues\<close> is the store of the descriptor queues, by address; \<open>req_queues\<close> holds
  the request queues of \<^verbatim>\<open>g_readqs\<close>, by index; \<open>trace\<close> is the list of events so far.
\<close>

record world =
  g_running :: bool
  g_read_reqs_queued :: u32
  fd_queues :: "nat \<Rightarrow> int list"
  req_queues :: "readreq list list"
  histograms :: "hist_id \<Rightarrow> u64 list"
  trace :: "event list"

section \<open>act.c: helpers\<close>

definition emit :: "event \<Rightarrow> world \<Rightarrow> world" where
  "emit e w = w\<lparr>trace := trace w @ [e]\<rparr>"

definition histogram_insert_data_point :: "hist_id \<Rightarrow> u64 \<Rightarrow> world \<Rightarrow> world" where
  "histogram_insert_data_point h delta w =
     w\<lparr>histograms := (histograms w)(h := histograms w h @ [delta])\<rparr>"

definition align_4096 :: "u64 \<Rightarrow> u64" where
  "align_4096 stack_buffer = (stack_buffer + 4095) AND NOT 4095"

text \<open>
  \<^verbatim>\<open>posix_memalign(&pv, 4096, size)\<close> is the C library's: its return code and the pointer
  it stores, for each size asked, are inputs (\<open>posix_memalign_4096\<close>).
\<close>

record memalign_ret =
  memalign_rc :: int
  memalign_pv :: u64

definition cf_valloc :: "(u64 \<Rightarrow> memalign_ret) \<Rightarrow> u64 \<Rightarrow> u64" where
  "cf_valloc posix_memalign_4096 sz =
     (let m = posix_memalign_4096 sz in if memalign_rc m = 0 then memalign_pv m else 0)"

text \<open>
  \<open>fd_get\<close>: pop a descriptor from the device's queue, or open the device when the queue
  is empty. \<open>open_ret\<close> is what \<^verbatim>\<open>open\<close> returns if it is called.
\<close>

definition fd_get :: "int \<Rightarrow> device \<Rightarrow> world \<Rightarrow> int \<times> world" where
  "fd_get open_ret p_dev w =
     (case fd_queues w (p_fd_queue p_dev) of
        fd # rest \<Rightarrow> (fd, w\<lparr>fd_queues := (fd_queues w)(p_fd_queue p_dev := rest)\<rparr>)
      | [] \<Rightarrow>
          (let w1 = emit (SysOpen (dev_name p_dev)) w in
           if open_ret = - 1 then (open_ret, emit (Print ErrOpenDevice) w1)
           else (open_ret, w1)))"

definition fd_put :: "device \<Rightarrow> int \<Rightarrow> world \<Rightarrow> world" where
  "fd_put p_dev fd w =
     w\<lparr>fd_queues := (fd_queues w)(p_fd_queue p_dev := fd_queues w (p_fd_queue p_dev) @ [fd])\<rparr>"

definition fd_close_all :: "device \<Rightarrow> world \<Rightarrow> world" where
  "fd_close_all p_dev w =
     w\<lparr>trace := trace w @ map SysClose (fd_queues w (p_fd_queue p_dev)),
       fd_queues := (fd_queues w)(p_fd_queue p_dev := [])\<rparr>"

text \<open>
  \<^verbatim>\<open>rand()\<close> returns a C \<^verbatim>\<open>int\<close>; its results are inputs. The cast of an \<^verbatim>\<open>int\<close> to
  \<^verbatim>\<open>uint64_t\<close> extends the sign.
\<close>

definition rand_31 :: "u32 \<Rightarrow> u32" where
  "rand_31 r = r"

definition rand_48 :: "u32 \<Rightarrow> u32 \<Rightarrow> u64" where
  "rand_48 r1 r2 = push_bit 16 (scast r1) OR (scast r2 AND 0xffff)"

definition random_read_offset :: "u64 \<Rightarrow> device \<Rightarrow> fault + u64" where
  "random_read_offset r48 p_dev =
     (if num_read_offsets p_dev = 0 then Inl DivideByZero
      else Inr ((r48 mod num_read_offsets p_dev) * ucast (min_op_bytes p_dev)))"

definition random_large_block_offset :: "act_cfg \<Rightarrow> u64 \<Rightarrow> device \<Rightarrow> fault + u64" where
  "random_large_block_offset cfg r48 p_dev =
     (if num_large_blocks p_dev = 0 then Inl DivideByZero
      else Inr ((r48 mod num_large_blocks p_dev) * ucast (large_block_ops_bytes cfg)))"

definition safe_delta_ns :: "u64 \<Rightarrow> u64 \<Rightarrow> u64" where
  "safe_delta_ns start_ns stop_ns = (if start_ns > stop_ns then 0 else stop_ns - start_ns)"

section \<open>act.c: the geometry probe\<close>

text \<open>
  What the operating system answers during the probe of one device: the result of
  \<^verbatim>\<open>open\<close> (if the queue of descriptors is empty), the size \<^verbatim>\<open>ioctl(BLKGETSIZE64)\<close> stores
  (\<open>None\<close> when the call fails and leaves \<^verbatim>\<open>device_bytes\<close> at 0), the result of the
  \<^verbatim>\<open>lseek\<close> to 0, the allocation of the probe buffer, and the result of \<^verbatim>\<open>read\<close> for each
  requested size.
\<close>

record probe_env =
  probe_open :: int
  probe_blkgetsize64 :: "u64 option"
  probe_lseek :: u64
  probe_memalign :: "u64 \<Rightarrow> memalign_ret"
  probe_read :: "u64 \<Rightarrow> u64"

text \<open>
  The \<^verbatim>\<open>while (read_sz <= HI_IO_MIN_SIZE)\<close> loop of \<open>discover_min_op_bytes\<close> and what
  follows it: \<open>Some\<close> of the function's return value and the line it prints, \<open>None\<close> if
  the loop does not end.
\<close>

partial_function (option) min_op_loop :: "(u64 \<Rightarrow> u64) \<Rightarrow> u64 \<Rightarrow> (u64 \<times> event list) option" where
  "min_op_loop rd read_sz =
     (if read_sz \<le> ucast HI_IO_MIN_SIZE then
        (if rd read_sz = read_sz then Some (read_sz, [])
         else min_op_loop rd (push_bit 1 read_sz))
      else Some (0, [Print ErrProbeReadAllSizes]))"

declare min_op_loop.simps [code]

definition discover_min_op_bytes :: "probe_env \<Rightarrow> world \<Rightarrow> fault + (u64 \<times> world)" where
  "discover_min_op_bytes env w =
     (if probe_lseek env \<noteq> 0 then Inr (0, emit (Print ErrProbeSeek) w)
      else if cf_valloc (probe_memalign env) (ucast HI_IO_MIN_SIZE) = 0
      then Inr (0, emit (Print ErrProbeValloc) w)
      else
        (case min_op_loop (probe_read env) (ucast LO_IO_MIN_SIZE) of
           None \<Rightarrow> Inl NoReturn
         | Some (r, es) \<Rightarrow> Inr (r, w\<lparr>trace := trace w @ es\<rparr>)))"

definition device_bytes :: "probe_env \<Rightarrow> u64" where
  "device_bytes env = (case probe_blkgetsize64 env of None \<Rightarrow> 0 | Some b \<Rightarrow> b)"

definition num_min_op_blocks :: "act_cfg \<Rightarrow> device \<Rightarrow> u64" where
  "num_min_op_blocks cfg p_dev =
     (num_large_blocks p_dev * ucast (large_block_ops_bytes cfg)) div ucast (min_op_bytes p_dev)"

definition read_req_min_op_blocks :: "act_cfg \<Rightarrow> device \<Rightarrow> u64" where
  "read_req_min_op_blocks cfg p_dev =
     ucast ((record_bytes cfg + min_op_bytes p_dev - 1) div min_op_bytes p_dev)"

definition discover_num_blocks ::
    "act_cfg \<Rightarrow> probe_env \<Rightarrow> device \<Rightarrow> world \<Rightarrow> fault + (bool \<times> device \<times> world)" where
  "discover_num_blocks cfg env p_dev w =
     (case fd_get (probe_open env) p_dev w of (fd, w1) \<Rightarrow>
      if fd = - 1 then Inr (False, p_dev, w1)
      else
        if large_block_ops_bytes cfg = 0 then Inl DivideByZero
        else
          let d1 = p_dev\<lparr>num_large_blocks :=
                           device_bytes env div ucast (large_block_ops_bytes cfg)\<rparr> in
          (case discover_min_op_bytes env w1 of
             Inl f \<Rightarrow> Inl f
           | Inr (r, w2) \<Rightarrow>
               let d2 = d1\<lparr>min_op_bytes := ucast r\<rparr>;
                   w3 = fd_put d2 fd w2
               in
               if \<not> (num_large_blocks d2 \<noteq> 0 \<and> min_op_bytes d2 \<noteq> 0) then Inr (False, d2, w3)
               else
                 Inr (True,
                      d2\<lparr>num_read_offsets :=
                            num_min_op_blocks cfg d2 - read_req_min_op_blocks cfg d2 + 1,
                          read_bytes :=
                            ucast (read_req_min_op_blocks cfg d2 * ucast (min_op_bytes d2))\<rparr>,
                      emit (Print InfoDeviceGeometry) w3)))"

text \<open>
  The body of the device loop of \<open>main\<close>. \<open>p_dev\<close> is the uninitialised array entry,
  \<open>fd_q\<close> and \<open>hist\<close> are what \<^verbatim>\<open>cf_queue_create\<close> and \<^verbatim>\<open>histogram_create\<close> return
  (\<open>None\<close> for a null pointer); both are created empty. \<^verbatim>\<open>exit(-1)\<close> is
  \<open>Inl (Exit (- 1))\<close>.
\<close>

datatype abort = Exit int | Fault fault

definition main_setup_device ::
    "act_cfg \<Rightarrow> probe_env \<Rightarrow> nat option \<Rightarrow> nat option \<Rightarrow> string \<Rightarrow> u32 \<Rightarrow> device \<Rightarrow> world
      \<Rightarrow> abort + (device \<times> world)" where
  "main_setup_device cfg env fd_q hist nm i p_dev w =
     (let d0 = p_dev\<lparr>dev_name := nm, dev_n := i\<rparr> in
      case fd_q of
        None \<Rightarrow> Inl (Exit (- 1))
      | Some q \<Rightarrow>
          (case discover_num_blocks cfg env (d0\<lparr>p_fd_queue := q\<rparr>)
                  (w\<lparr>fd_queues := (fd_queues w)(q := [])\<rparr>) of
             Inl f \<Rightarrow> Inl (Fault f)
           | Inr (ok, d, w') \<Rightarrow>
               if \<not> ok then Inl (Exit (- 1))
               else
                 (case hist of
                    None \<Rightarrow> Inl (Exit (- 1))
                  | Some h \<Rightarrow>
                      Inr (d\<lparr>p_raw_read_histogram := h\<rparr>,
                           w'\<lparr>histograms := (histograms w')(DeviceRawReadHistogram h := [])\<rparr>))))"

text \<open>
  The device loop of \<open>main\<close>, over what each device's setup is given: the answers of
  the operating system, the results of \<^verbatim>\<open>cf_queue_create\<close> and \<^verbatim>\<open>histogram_create\<close>, the
  configured name and the uninitialised array entry. \<open>i\<close> is the loop counter.
\<close>

fun main_setup_devices ::
    "act_cfg \<Rightarrow> (probe_env \<times> nat option \<times> nat option \<times> string \<times> device) list \<Rightarrow> u32 \<Rightarrow> world
      \<Rightarrow> abort + (device list \<times> world)" where
  "main_setup_devices cfg [] i w = Inr ([], w)"
| "main_setup_devices cfg ((env, fd_q, hist, nm, p_dev) # rest) i w =
     (case main_setup_device cfg env fd_q hist nm i p_dev w of
        Inl a \<Rightarrow> Inl a
      | Inr (d, w') \<Rightarrow>
          (case main_setup_devices cfg rest (i + 1) w' of
             Inl a \<Rightarrow> Inl a
           | Inr (ds, w'') \<Rightarrow> Inr (d # ds, w'')))"

section \<open>act.c: the direct-I/O engine\<close>

text \<open>
  What the operating system answers during one operation: the result of \<^verbatim>\<open>open\<close> (if
  the queue of descriptors is empty), whether \<^verbatim>\<open>lseek\<close> returned the offset, whether
  \<^verbatim>\<open>read\<close> or \<^verbatim>\<open>write\<close> returned the size, and the clock read after the transfer.
\<close>

record io_env =
  io_open :: int
  io_lseek_ok :: bool
  io_xfer_ok :: bool
  io_stop :: timespec

definition read_from_device ::
    "io_env \<Rightarrow> device \<Rightarrow> u64 \<Rightarrow> u32 \<Rightarrow> u64 \<Rightarrow> world \<Rightarrow> u64 \<times> world" where
  "read_from_device env p_dev offset sz p_buffer w =
     (case fd_get (io_open env) p_dev w of (fd, w1) \<Rightarrow>
      if fd = - 1 then (- 1, w1)
      else
        let w2 = emit (SysLseek fd offset) w1 in
        if \<not> io_lseek_ok env then (- 1, emit (Print ErrSeekRead) (emit (SysClose fd) w2))
        else
          let w3 = emit (SysRead fd p_buffer sz) w2 in
          if \<not> io_xfer_ok env then (- 1, emit (Print ErrSeekRead) (emit (SysClose fd) w3))
          else (cf_getns (io_stop env), fd_put p_dev fd w3))"

definition write_to_device ::
    "io_env \<Rightarrow> device \<Rightarrow> u64 \<Rightarrow> u32 \<Rightarrow> u64 \<Rightarrow> world \<Rightarrow> u64 \<times> world" where
  "write_to_device env p_dev offset sz p_buffer w =
     (case fd_get (io_open env) p_dev w of (fd, w1) \<Rightarrow>
      if fd = - 1 then (- 1, w1)
      else
        let w2 = emit (SysLseek fd offset) w1 in
        if \<not> io_lseek_ok env then (- 1, emit (Print ErrSeekWrite) (emit (SysClose fd) w2))
        else
          let w3 = emit (SysWrite fd p_buffer sz) w2 in
          if \<not> io_xfer_ok env then (- 1, emit (Print ErrSeekWrite) (emit (SysClose fd) w3))
          else (cf_getns (io_stop env), fd_put p_dev fd w3))"

text \<open>\<open>start\<close> is the clock read before the operation.\<close>

definition read_and_report :: "timespec \<Rightarrow> io_env \<Rightarrow> readreq \<Rightarrow> u64 \<Rightarrow> world \<Rightarrow> world" where
  "read_and_report start env p_readreq p_buffer w =
     (let raw_start_time = cf_getns start in
      case read_from_device env (p_device p_readreq) (req_offset p_readreq)
             (req_size p_readreq) p_buffer w of (stop_time, w1) \<Rightarrow>
      if stop_time \<noteq> - 1 then
        histogram_insert_data_point
          (DeviceRawReadHistogram (p_raw_read_histogram (p_device p_readreq)))
          (safe_delta_ns raw_start_time stop_time)
          (histogram_insert_data_point ReadHistogram
             (safe_delta_ns (start_time p_readreq) stop_time)
             (histogram_insert_data_point RawReadHistogram
                (safe_delta_ns raw_start_time stop_time) w1))
      else w1)"

definition read_and_report_large_block ::
    "act_cfg \<Rightarrow> u64 \<Rightarrow> timespec \<Rightarrow> io_env \<Rightarrow> device \<Rightarrow> u64 \<Rightarrow> world \<Rightarrow> fault + world" where
  "read_and_report_large_block cfg r48 start env p_dev p_buffer w =
     (case random_large_block_offset cfg r48 p_dev of
        Inl f \<Rightarrow> Inl f
      | Inr offset \<Rightarrow>
          (let start_t = cf_getns start in
           case read_from_device env p_dev offset (large_block_ops_bytes cfg) p_buffer w of
             (stop_time, w1) \<Rightarrow>
               if stop_time \<noteq> - 1 then
                 Inr (histogram_insert_data_point LargeBlockReadHistogram
                        (safe_delta_ns start_t stop_time) w1)
               else Inr w1))"

text \<open>The bytes \<^verbatim>\<open>rand_fill\<close> writes into the buffer are not modelled.\<close>

definition write_and_report_large_block ::
    "act_cfg \<Rightarrow> u64 \<Rightarrow> timespec \<Rightarrow> io_env \<Rightarrow> device \<Rightarrow> u64 \<Rightarrow> world \<Rightarrow> fault + world" where
  "write_and_report_large_block cfg r48 start env p_dev p_buffer w =
     (case random_large_block_offset cfg r48 p_dev of
        Inl f \<Rightarrow> Inl f
      | Inr offset \<Rightarrow>
          (let start_t = cf_getns start in
           case write_to_device env p_dev offset (large_block_ops_bytes cfg) p_buffer w of
             (stop_time, w1) \<Rightarrow>
               if stop_time \<noteq> - 1 then
                 Inr (histogram_insert_data_point LargeBlockWriteHistogram
                        (safe_delta_ns start_t stop_time) w1)
               else Inr w1))"

section \<open>act.c: the threads\<close>

text \<open>
  The control points of the generator thread \<open>run_add_readreqs\<close>: at the test of
  \<^verbatim>\<open>while (g_running)\<close>, before the increment of \<^verbatim>\<open>g_read_reqs_queued\<close>, before the
  request is built and pushed, and after the loop. Its pacing sleep changes no state.
\<close>

datatype gen_pc = G_test | G_incr | G_push | G_exit

text \<open>
  The control points of a worker thread \<open>run_reads\<close>: at the test of
  \<^verbatim>\<open>while (g_running)\<close>, at \<^verbatim>\<open>cf_queue_pop\<close>, holding a popped request before
  \<open>read_and_report\<close>, before the decrement of \<^verbatim>\<open>g_read_reqs_queued\<close>, and after the
  loop.
\<close>

datatype worker_pc = W_test | W_pop | W_read readreq | W_decr | W_exit

text \<open>
  The process while the threads run: the shared state, the generator (its control point
  and its local \<^verbatim>\<open>count\<close>), and the workers (each with the index of its queue and its
  control point).
\<close>

record sys =
  shared :: world
  gen_at :: gen_pc
  gen_count :: u64
  workers :: "(nat \<times> worker_pc) list"

definition cf_queue_push_req :: "nat \<Rightarrow> readreq \<Rightarrow> world \<Rightarrow> world" where
  "cf_queue_push_req qi r w =
     emit (QueuePush qi r) (w\<lparr>req_queues := (req_queues w)[qi := req_queues w ! qi @ [r]]\<rparr>)"

text \<open>
  One step of the generator. \<open>r31\<close>, \<open>r48_hi\<close> and \<open>r48_lo\<close> are the results of the
  calls of \<^verbatim>\<open>rand()\<close>, \<open>now\<close> the clock read by \<^verbatim>\<open>cf_getns()\<close>. \<^verbatim>\<open>malloc\<close> is taken to
  succeed (the source does not test its result).
\<close>

definition gen_step ::
    "act_cfg \<Rightarrow> device list \<Rightarrow> u32 \<Rightarrow> u32 \<Rightarrow> u32 \<Rightarrow> timespec \<Rightarrow> sys \<Rightarrow> fault + sys" where
  "gen_step cfg g_devices r31 r48_hi r48_lo now s =
     (case gen_at s of
        G_exit \<Rightarrow> Inr s
      | G_test \<Rightarrow>
          Inr (s\<lparr>gen_at := (if g_running (shared s) then G_incr else G_exit)\<rparr>)
      | G_incr \<Rightarrow>
          (let w1 = (shared s)\<lparr>g_read_reqs_queued := g_read_reqs_queued (shared s) + 1\<rparr> in
           if g_read_reqs_queued w1 > MAX_READ_REQS_QUEUED then
             Inr (s\<lparr>shared := (emit (Print ErrDrivesCantKeepUp)
                                 (emit (Print ErrTooManyReadReqs) w1))\<lparr>g_running := False\<rparr>,
                    gen_at := G_exit\<rparr>)
           else Inr (s\<lparr>shared := w1, gen_at := G_push\<rparr>))
      | G_push \<Rightarrow>
          (if num_queues cfg = 0 then Inl DivideByZero
           else
             let queue_index = (ucast (gen_count s mod ucast (num_queues cfg)) :: u32) in
             if num_devices cfg = 0 then Inl DivideByZero
             else
               let random_device_index = rand_31 r31 mod num_devices cfg in
               if \<not> unat random_device_index < length g_devices then Inl OutOfBounds
               else
                 let p_random_device = g_devices ! unat random_device_index in
                 (case random_read_offset (rand_48 r48_hi r48_lo) p_random_device of
                    Inl f \<Rightarrow> Inl f
                  | Inr off \<Rightarrow>
                      let p_readreq = \<lparr>p_device = p_random_device, req_offset = off,
                                         req_size = read_bytes p_random_device,
                                         start_time = cf_getns now\<rparr> in
                      if \<not> unat queue_index < length (req_queues (shared s))
                      then Inl OutOfBounds
                      else
                        Inr (s\<lparr>shared := cf_queue_push_req (unat queue_index) p_readreq
                                            (shared s),
                               gen_count := gen_count s + 1,
                               gen_at := G_test\<rparr>))))"

text \<open>
  One step of worker \<open>i\<close>. \<open>stack_buffer\<close> is the address of its variable-length
  array, \<open>start\<close> the clock read at the start of \<open>read_and_report\<close>, \<open>env\<close> what the
  operating system answers during the read. A pop on an empty queue times out.
\<close>

definition worker_step :: "nat \<Rightarrow> u64 \<Rightarrow> timespec \<Rightarrow> io_env \<Rightarrow> sys \<Rightarrow> fault + sys" where
  "worker_step i stack_buffer start env s =
     (if \<not> i < length (workers s) then Inr s
      else
        (case workers s ! i of (qi, pc) \<Rightarrow>
           (case pc of
              W_exit \<Rightarrow> Inr s
            | W_test \<Rightarrow>
                Inr (s\<lparr>workers := (workers s)
                        [i := (qi, if g_running (shared s) then W_pop else W_exit)]\<rparr>)
            | W_pop \<Rightarrow>
                (if \<not> qi < length (req_queues (shared s)) then Inl OutOfBounds
                 else
                   (case req_queues (shared s) ! qi of
                      [] \<Rightarrow> Inr (s\<lparr>workers := (workers s)[i := (qi, W_test)]\<rparr>)
                    | r # rest \<Rightarrow>
                        Inr (s\<lparr>shared := emit (QueuePop qi r)
                                  ((shared s)\<lparr>req_queues := (req_queues (shared s))[qi := rest]\<rparr>),
                               workers := (workers s)[i := (qi, W_read r)]\<rparr>)))
            | W_read p_readreq \<Rightarrow>
                (let p_buffer = align_4096 stack_buffer in
                 Inr (s\<lparr>shared := read_and_report start env p_readreq p_buffer (shared s),
                        workers := (workers s)[i := (qi, W_decr)]\<rparr>))
            | W_decr \<Rightarrow>
                Inr (s\<lparr>shared := (shared s)
                          \<lparr>g_read_reqs_queued := g_read_reqs_queued (shared s) - 1\<rparr>,
                       workers := (workers s)[i := (qi, W_test)]\<rparr>))))"

text \<open>
  What the scheduler lets happen next: a step of the generator, a step of a worker, or
  another thread clearing \<^verbatim>\<open>g_running\<close> (\<open>main\<close> when the test duration is over, a
  large-block thread that cannot keep up).
\<close>

datatype sched =
  RunGen u32 u32 u32 timespec
  | RunWorker nat u64 timespec io_env
  | ClearRunning

fun step :: "act_cfg \<Rightarrow> device list \<Rightarrow> sched \<Rightarrow> sys \<Rightarrow> fault + sys" where
  "step cfg g_devices (RunGen r31 r48_hi r48_lo now) s =
     gen_step cfg g_devices r31 r48_hi r48_lo now s"
| "step cfg g_devices (RunWorker i stack_buffer start env) s =
     worker_step i stack_buffer start env s"
| "step cfg g_devices ClearRunning s = Inr (s\<lparr>shared := (shared s)\<lparr>g_running := False\<rparr>\<rparr>)"

fun exec :: "act_cfg \<Rightarrow> device list \<Rightarrow> sched list \<Rightarrow> sys \<Rightarrow> fault + sys" where
  "exec cfg g_devices [] s = Inr s"
| "exec cfg g_devices (e # es) s =
     (case step cfg g_devices e s of
        Inl f \<Rightarrow> Inl f
      | Inr s' \<Rightarrow> exec cfg g_devices es s')"

text \<open>
  The process as \<open>main\<close> starts the threads: \<^verbatim>\<open>g_running\<close> set, no request counted or
  queued, \<^verbatim>\<open>num_queues\<close> empty queues with \<^verbatim>\<open>threads_per_queue\<close> workers each, the
  generator at the start of \<open>run_add_readreqs\<close>. \<open>w\<close> is the shared state after the
  devices are set up.
\<close>

definition main_start :: "act_cfg \<Rightarrow> world \<Rightarrow> sys" where
  "main_start cfg w =
     \<lparr>shared = w\<lparr>g_running := True, g_read_reqs_queued := 0,
                  req_queues := replicate (unat (num_queues cfg)) []\<rparr>,
      gen_at = G_test,
      gen_count = 0,
      workers = concat (map (\<lambda>i. replicate (unat (threads_per_queue cfg)) (i, W_test))
                          [0..<unat (num_queues cfg)])\<rparr>"

text \<open>All threads that \<open>main\<close> joins have returned.\<close>

definition all_joined :: "sys \<Rightarrow> bool" where
  "all_joined s = (gen_at s = G_exit \<and> list_all (\<lambda>(qi, pc). pc = W_exit) (workers s))"

section \<open>act.c: the large-block threads\<close>

text \<open>
  The control points of a large-block thread (\<open>run_large_block_reads\<close>,
  \<open>run_large_block_writes\<close>): before \<open>cf_valloc\<close>, at the test of
  \<^verbatim>\<open>while (g_running)\<close>, before the operation, before the pacing that follows it, and
  after the loop.
\<close>

datatype lb_pc = LB_valloc | LB_test | LB_op | LB_pace | LB_exit

text \<open>
  The locals of a large-block thread: its control point, \<^verbatim>\<open>p_buffer\<close>, \<^verbatim>\<open>start_us\<close> and
  \<^verbatim>\<open>count\<close>.
\<close>

record lb_thread =
  lb_at :: lb_pc
  lb_p_buffer :: u64
  lb_start_us :: u64
  lb_count :: u64

text \<open>
  What a step of a large-block thread takes from outside: the answers of
  \<^verbatim>\<open>posix_memalign\<close>, the results of the two calls of \<^verbatim>\<open>rand()\<close> in \<open>rand_48\<close>, the clock
  read by \<^verbatim>\<open>cf_getns()\<close> before the operation, the answers of the operating system
  during the operation, \<^verbatim>\<open>target_us\<close>, and the clock read by \<^verbatim>\<open>cf_getus()\<close> in the pacing.
  \<^verbatim>\<open>target_us\<close> is the quotient
  \<^verbatim>\<open>(double)(count * 1000000 * g_cfg.num_devices) / g_cfg.large_block_ops_per_sec\<close>
  converted to \<^verbatim>\<open>uint64_t\<close>: the floating-point division is not modelled, its result
  is an input.
\<close>

record lb_env =
  lb_memalign :: "u64 \<Rightarrow> memalign_ret"
  lb_rand_hi :: u32
  lb_rand_lo :: u32
  lb_start :: timespec
  lb_io :: io_env
  lb_target_us :: u64
  lb_now :: timespec

text \<open>
  One step of the large-block read thread of device \<open>p_dev\<close>. \<open>g_run_start_us\<close> is the
  global that \<open>main\<close> sets before it starts the threads. The sleep changes no state.
\<close>

definition run_large_block_reads_step ::
    "act_cfg \<Rightarrow> u64 \<Rightarrow> device \<Rightarrow> lb_env \<Rightarrow> lb_thread \<Rightarrow> world \<Rightarrow> fault + (lb_thread \<times> world)" where
  "run_large_block_reads_step cfg g_run_start_us p_dev e t w =
     (case lb_at t of
        LB_exit \<Rightarrow> Inr (t, w)
      | LB_valloc \<Rightarrow>
          (let p_buffer = cf_valloc (lb_memalign e) (ucast (large_block_ops_bytes cfg)) in
           if p_buffer = 0
           then Inr (t\<lparr>lb_at := LB_exit, lb_p_buffer := p_buffer\<rparr>,
                     emit (Print ErrLargeBlockReadValloc) w)
           else Inr (t\<lparr>lb_at := LB_test, lb_p_buffer := p_buffer,
                        lb_start_us := g_run_start_us - ucast (dev_n p_dev) * STAGGER,
                        lb_count := 0\<rparr>, w))
      | LB_test \<Rightarrow> Inr (t\<lparr>lb_at := (if g_running w then LB_op else LB_exit)\<rparr>, w)
      | LB_op \<Rightarrow>
          (case read_and_report_large_block cfg (rand_48 (lb_rand_hi e) (lb_rand_lo e))
                  (lb_start e) (lb_io e) p_dev (lb_p_buffer t) w of
             Inl f \<Rightarrow> Inl f
           | Inr w1 \<Rightarrow> Inr (t\<lparr>lb_at := LB_pace, lb_count := lb_count t + 1\<rparr>, w1))
      | LB_pace \<Rightarrow>
          (let sleep_us = lb_target_us e - (cf_getus (lb_now e) - lb_start_us t) in
           if 0 < sint sleep_us then Inr (t\<lparr>lb_at := LB_test\<rparr>, w)
           else if sint sleep_us < - MAX_SLEEP_LAG_USEC
           then Inr (t\<lparr>lb_at := LB_test\<rparr>,
                     (emit (Print ErrDrivesCantKeepUp)
                        (emit (Print ErrLargeBlockReadsCantKeepUp) w))\<lparr>g_running := False\<rparr>)
           else Inr (t\<lparr>lb_at := LB_test\<rparr>, w)))"

text \<open>One step of the large-block write thread of device \<open>p_dev\<close>.\<close>

definition run_large_block_writes_step ::
    "act_cfg \<Rightarrow> u64 \<Rightarrow> device \<Rightarrow> lb_env \<Rightarrow> lb_thread \<Rightarrow> world \<Rightarrow> fault + (lb_thread \<times> world)" where
  "run_large_block_writes_step cfg g_run_start_us p_dev e t w =
     (case lb_at t of
        LB_exit \<Rightarrow> Inr (t, w)
      | LB_valloc \<Rightarrow>
          (let p_buffer = cf_valloc (lb_memalign e) (ucast (large_block_ops_bytes cfg)) in
           if p_buffer = 0
           then Inr (t\<lparr>lb_at := LB_exit, lb_p_buffer := p_buffer\<rparr>,
                     emit (Print ErrLargeBlockWriteValloc) w)
           else Inr (t\<lparr>lb_at := LB_test, lb_p_buffer := p_buffer,
                        lb_start_us :=
                          g_run_start_us - ucast (dev_n p_dev) * STAGGER - RW_STAGGER,
                        lb_count := 0\<rparr>, w))
      | LB_test \<Rightarrow> Inr (t\<lparr>lb_at := (if g_running w then LB_op else LB_exit)\<rparr>, w)
      | LB_op \<Rightarrow>
          (case write_and_report_large_block cfg (rand_48 (lb_rand_hi e) (lb_rand_lo e))
                  (lb_start e) (lb_io e) p_dev (lb_p_buffer t) w of
             Inl f \<Rightarrow> Inl f
           | Inr w1 \<Rightarrow> Inr (t\<lparr>lb_at := LB_pace, lb_count := lb_count t + 1\<rparr>, w1))
      | LB_pace \<Rightarrow>
          (let sleep_us = lb_target_us e - (cf_getus (lb_now e) - lb_start_us t) in
           if 0 < sint sleep_us then Inr (t\<lparr>lb_at := LB_test\<rparr>, w)
           else if sint sleep_us < - MAX_SLEEP_LAG_USEC
           then Inr (t\<lparr>lb_at := LB_test\<rparr>,
                     (emit (Print ErrDrivesCantKeepUp)
                        (emit (Print ErrLargeBlockWritesCantKeepUp) w))\<lparr>g_running := False\<rparr>)
           else Inr (t\<lparr>lb_at := LB_test\<rparr>, w)))"

text \<open>
  A large-block thread over its turns. At each turn the thread takes one step, with the
  inputs of the step and the shared state as the other threads have left it; the events
  of the thread's own steps are collected, in order.
\<close>

fun run_large_block_reads ::
    "act_cfg \<Rightarrow> u64 \<Rightarrow> device \<Rightarrow> (lb_env \<times> world) list \<Rightarrow> lb_thread
      \<Rightarrow> fault + (lb_thread \<times> event list)" where
  "run_large_block_reads cfg g_run_start_us p_dev [] t = Inr (t, [])"
| "run_large_block_reads cfg g_run_start_us p_dev ((e, w) # turns) t =
     (case run_large_block_reads_step cfg g_run_start_us p_dev e t w of
        Inl f \<Rightarrow> Inl f
      | Inr (t1, w1) \<Rightarrow>
          (case run_large_block_reads cfg g_run_start_us p_dev turns t1 of
             Inl f \<Rightarrow> Inl f
           | Inr (t2, es) \<Rightarrow> Inr (t2, drop (length (trace w)) (trace w1) @ es)))"

fun run_large_block_writes ::
    "act_cfg \<Rightarrow> u64 \<Rightarrow> device \<Rightarrow> (lb_env \<times> world) list \<Rightarrow> lb_thread
      \<Rightarrow> fault + (lb_thread \<times> event list)" where
  "run_large_block_writes cfg g_run_start_us p_dev [] t = Inr (t, [])"
| "run_large_block_writes cfg g_run_start_us p_dev ((e, w) # turns) t =
     (case run_large_block_writes_step cfg g_run_start_us p_dev e t w of
        Inl f \<Rightarrow> Inl f
      | Inr (t1, w1) \<Rightarrow>
          (case run_large_block_writes cfg g_run_start_us p_dev turns t1 of
             Inl f \<Rightarrow> Inl f
           | Inr (t2, es) \<Rightarrow> Inr (t2, drop (length (trace w)) (trace w1) @ es)))"

section \<open>Observations\<close>

text \<open>
  \<open>borrowed\<close> is the descriptor \<open>fd_get\<close> hands to an operation, \<open>pool\<close> the device's
  queue of descriptors, \<open>new_events w w'\<close> the events of \<open>w'\<close> after those of \<open>w\<close>.
\<close>

definition borrowed :: "io_env \<Rightarrow> device \<Rightarrow> world \<Rightarrow> int" where
  "borrowed env p_dev w = fst (fd_get (io_open env) p_dev w)"

definition pool :: "device \<Rightarrow> world \<Rightarrow> int list" where
  "pool p_dev w = fd_queues w (p_fd_queue p_dev)"

definition new_events :: "world \<Rightarrow> world \<Rightarrow> event list" where
  "new_events w w' = drop (length (trace w)) (trace w')"


text \<open>The requests in the queues, and the requests the workers have popped and hold.\<close>

definition queued_requests :: "sys \<Rightarrow> readreq list" where
  "queued_requests s = concat (req_queues (shared s))"

fun popped_request :: "worker_pc \<Rightarrow> readreq list" where
  "popped_request (W_read r) = [r]"
| "popped_request pc = []"

definition popped_requests :: "sys \<Rightarrow> readreq list" where
  "popped_requests s = concat (map (\<lambda>(qi, pc). popped_request pc) (workers s))"

text \<open>The queue indices of the pushes in a list of events, in order.\<close>

fun push_indices :: "event list \<Rightarrow> nat list" where
  "push_indices [] = []"
| "push_indices (QueuePush qi r # es) = qi # push_indices es"
| "push_indices (e # es) = push_indices es"

text \<open>
  What \<^verbatim>\<open>g_read_reqs_queued\<close> counts: a worker between its pop and its decrement holds
  one request; the generator between its increment and its push has one pending; an
  overload is an increment that no push follows.
\<close>

fun holds :: "worker_pc \<Rightarrow> nat" where
  "holds (W_read r) = 1"
| "holds W_decr = 1"
| "holds pc = 0"

definition in_flight :: "sys \<Rightarrow> nat" where
  "in_flight s = sum_list (map (\<lambda>(qi, pc). holds pc) (workers s))"

definition pending :: "sys \<Rightarrow> nat" where
  "pending s = (if gen_at s = G_push then 1 else 0)"

definition overloads :: "sys \<Rightarrow> sys \<Rightarrow> nat" where
  "overloads s0 s =
     count_list (new_events (shared s0) (shared s)) (Print ErrTooManyReadReqs)"


text \<open>
  The account of \<^verbatim>\<open>g_read_reqs_queued\<close> in a state \<open>s\<close> reached from \<open>s0\<close>: it counts
  the requests queued, held and pending and the overloads since \<open>s0\<close>; there is at most
  one overload, after which the generator has left its loop; without an overload the
  counter is at most 100000.
\<close>

definition reqs_accounted :: "sys \<Rightarrow> sys \<Rightarrow> bool" where
  "reqs_accounted s0 s \<longleftrightarrow>
     length (trace (shared s0)) \<le> length (trace (shared s))
     \<and> unat (g_read_reqs_queued (shared s))
         = length (queued_requests s) + in_flight s + pending s + overloads s0 s
     \<and> overloads s0 s \<le> 1
     \<and> (overloads s0 s = 1 \<longrightarrow> gen_at s = G_exit)
     \<and> unat (g_read_reqs_queued (shared s)) \<le> 100000 + overloads s0 s"

section \<open>Concrete configurations, devices and schedules\<close>

text \<open>
  The default configuration of the sample file (1536-byte records, 128-KiB large
  blocks), with one device and two queues.
\<close>

definition cfg_default :: act_cfg where
  "cfg_default = \<lparr>num_devices = 1, num_queues = 2, threads_per_queue = 1, record_bytes = 1536,
     large_block_ops_bytes = 131072, max_reqs_queued = 100000\<rparr>"

text \<open>A device of 1 GiB that reads at every size, opened as descriptor 3.\<close>

definition env_1gib :: probe_env where
  "env_1gib = \<lparr>probe_open = 3, probe_blkgetsize64 = Some 1073741824, probe_lseek = 0,
     probe_memalign = (\<lambda>sz. \<lparr>memalign_rc = 0, memalign_pv = 65536\<rparr>),
     probe_read = (\<lambda>sz. sz)\<rparr>"

definition dev_blank :: device where
  "dev_blank = \<lparr>dev_name = ''/dev/loop0'', dev_n = 0, num_large_blocks = 0, num_read_offsets = 0,
     min_op_bytes = 0, read_bytes = 0, p_fd_queue = 0, p_raw_read_histogram = 0\<rparr>"

definition world_blank :: world where
  "world_blank = \<lparr>g_running = False, g_read_reqs_queued = 0, fd_queues = (\<lambda>q. []),
     req_queues = [], histograms = (\<lambda>h. []), trace = []\<rparr>"

text \<open>The device after its probe, and the shared state after it.\<close>

definition dev_default :: device where
  "dev_default = \<lparr>dev_name = ''/dev/loop0'', dev_n = 0, num_large_blocks = 8192,
     num_read_offsets = 2097150, min_op_bytes = 512, read_bytes = 1536, p_fd_queue = 0,
     p_raw_read_histogram = 0\<rparr>"

definition world_default :: world where
  "world_default = \<lparr>g_running = False, g_read_reqs_queued = 0, fd_queues = (\<lambda>q. [])(0 := [3]),
     req_queues = [], histograms = (\<lambda>h. []),
     trace = [SysOpen ''/dev/loop0'', Print InfoDeviceGeometry]\<rparr>"

text \<open>
  Records and large blocks of 4294966272 bytes (\<^verbatim>\<open>large-block-op-kbytes: 4194303\<close>), and
  a device of 8 GiB that reads only at 4096 bytes.
\<close>

definition cfg_4g :: act_cfg where
  "cfg_4g = cfg_default\<lparr>record_bytes := 4294966272, large_block_ops_bytes := 4294966272\<rparr>"

definition env_8gib_4k :: probe_env where
  "env_8gib_4k = env_1gib\<lparr>probe_blkgetsize64 := Some 8589934592,
     probe_read := (\<lambda>sz. if sz = 4096 then 4096 else - 1)\<rparr>"

text \<open>The shared state once \<open>main\<close> has set the device up.\<close>

definition world_ready :: world where
  "world_ready = world_default\<lparr>histograms := (\<lambda>h. [])(DeviceRawReadHistogram 0 := [])\<rparr>"

text \<open>A device on which the probe read fails at every size.\<close>

definition env_unreadable :: probe_env where
  "env_unreadable = env_1gib\<lparr>probe_read := (\<lambda>sz. - 1)\<rparr>"

text \<open>Large blocks of 4 KiB and records of 8192 bytes, on a device of 4096 bytes.\<close>

definition cfg_4k_8192 :: act_cfg where
  "cfg_4k_8192 = cfg_default\<lparr>large_block_ops_bytes := 4096, record_bytes := 8192\<rparr>"

definition env_4k :: probe_env where
  "env_4k = env_1gib\<lparr>probe_blkgetsize64 := Some 4096\<rparr>"

text \<open>
  Large blocks of 3 KiB with the default records, on a device of 4096 bytes that reads
  only at 4096 bytes.
\<close>

definition cfg_3k :: act_cfg where
  "cfg_3k = cfg_default\<lparr>large_block_ops_bytes := 3072\<rparr>"

definition env_4k_only :: probe_env where
  "env_4k_only = env_4k\<lparr>probe_read := (\<lambda>sz. if sz = 4096 then 4096 else - 1)\<rparr>"

text \<open>A clock reading, and operations that succeed, fail to seek, and fail to transfer.\<close>

definition ts_1s :: timespec where
  "ts_1s = \<lparr>tv_sec = 1, tv_nsec = 0\<rparr>"

definition ts_2s :: timespec where
  "ts_2s = \<lparr>tv_sec = 2, tv_nsec = 0\<rparr>"

definition io_ok :: io_env where
  "io_ok = \<lparr>io_open = 4, io_lseek_ok = True, io_xfer_ok = True, io_stop = ts_2s\<rparr>"

definition io_short :: io_env where
  "io_short = \<lparr>io_open = 4, io_lseek_ok = True, io_xfer_ok = False, io_stop = ts_2s\<rparr>"

text \<open>
  A large-block thread at its start, the inputs of its steps (the buffer is allocated at
  65536, the random number is 10000, the operation succeeds and ends on time), and four
  turns of it while the process runs: allocation, test, operation, pacing.
\<close>

definition lb_thread_start :: lb_thread where
  "lb_thread_start = \<lparr>lb_at = LB_valloc, lb_p_buffer = 0, lb_start_us = 0, lb_count = 0\<rparr>"

definition lb_env_ok :: lb_env where
  "lb_env_ok = \<lparr>lb_memalign = (\<lambda>sz. \<lparr>memalign_rc = 0, memalign_pv = 65536\<rparr>),
     lb_rand_hi = 0, lb_rand_lo = 10000, lb_start = ts_1s, lb_io = io_ok,
     lb_target_us = 1000000, lb_now = ts_2s\<rparr>"

definition lb_turns :: "(lb_env \<times> world) list" where
  "lb_turns = (let turn = (lb_env_ok, world_ready\<lparr>g_running := True\<rparr>) in [turn, turn, turn, turn])"

text \<open>
  The process with the generator about to increment a counter that stands at \<open>k\<close>, two
  empty queues and one worker on each.
\<close>

definition sys_at_limit :: "u32 \<Rightarrow> sys" where
  "sys_at_limit k = \<lparr>shared = world_ready\<lparr>g_running := True, g_read_reqs_queued := k,
       req_queues := [[], []]\<rparr>,
     gen_at = G_incr, gen_count = 0, workers = [(0, W_test), (1, W_test)]\<rparr>"

text \<open>
  One request from the generator to the device: three steps of the generator (test,
  increment, push), then three of worker 0 (test, pop, read into a stack buffer at
  8192).
\<close>

definition sched_one_read :: "sched list" where
  "sched_one_read =
     [RunGen 0 0 0 ts_1s, RunGen 0 0 0 ts_1s, RunGen 0 0 0 ts_1s,
      RunWorker 0 8192 ts_1s io_ok, RunWorker 0 8192 ts_1s io_ok, RunWorker 0 8192 ts_1s io_ok]"

text \<open>
  A request for the default device as the generator builds it, and the process once
  the generator has pushed it and worker 0 has popped it.
\<close>

definition rq_default :: readreq where
  "rq_default = \<lparr>p_device = dev_default, req_offset = 0, req_size = 1536,
     start_time = 1000000000\<rparr>"

definition sys_reading :: sys where
  "sys_reading = \<lparr>shared = world_ready\<lparr>g_running := True, g_read_reqs_queued := 1,
       req_queues := [[], []],
       trace := trace world_ready @ [QueuePush 0 rq_default, QueuePop 0 rq_default]\<rparr>,
     gen_at = G_test, gen_count = 1, workers = [(0, W_read rq_default), (1, W_test)]\<rparr>"


definition inputs_4k :: "(probe_env \<times> nat option \<times> nat option \<times> string \<times> device) list" where
  "inputs_4k = [(env_4k, Some 0, Some 0, ''/dev/loop0'', dev_blank)]"

text \<open>
  The generator pushes one request and worker 0 pops it; the generator pushes one
  request built from the random number 100.
\<close>

definition sched_one_pop :: "sched list" where
  "sched_one_pop = take 5 sched_one_read"

definition sched_push_100 :: "sched list" where
  "sched_push_100 = [RunGen 0 0 100 ts_1s, RunGen 0 0 100 ts_1s, RunGen 0 0 100 ts_1s]"


text \<open>
  Two requests are pushed, one onto each queue; worker 0 pops the first; \<^verbatim>\<open>g_running\<close>
  is cleared; worker 0 finishes its read and leaves, worker 1 and the generator leave.
\<close>

definition sched_backlog :: "sched list" where
  "sched_backlog =
     [RunGen 0 0 0 ts_1s, RunGen 0 0 0 ts_1s, RunGen 0 0 0 ts_1s,
      RunWorker 0 8192 ts_1s io_ok, RunWorker 0 8192 ts_1s io_ok,
      RunGen 0 0 0 ts_1s, RunGen 0 0 0 ts_1s, RunGen 0 0 0 ts_1s,
      ClearRunning,
      RunWorker 0 8192 ts_1s io_ok, RunWorker 0 8192 ts_1s io_ok, RunWorker 0 8192 ts_1s io_ok,
      RunWorker 1 8192 ts_1s io_ok,
      RunGen 0 0 0 ts_1s]"

section \<open>Facts about the geometry probe\<close>

lemma min_op_loop_512:
  "min_op_loop rd 512 =
     Some (if rd 512 = 512 then (512, [])
           else if rd 1024 = 1024 then (1024, [])
           else if rd 2048 = 2048 then (2048, [])
           else if rd 4096 = 4096 then (4096, [])
           else (0, [Print ErrProbeReadAllSizes]))"
  apply (subst min_op_loop.simps)
  apply (subst min_op_loop.simps)
  apply (subst min_op_loop.simps)
  apply (subst min_op_loop.simps)
  apply (subst min_op_loop.simps)
  apply (simp add: HI_IO_MIN_SIZE_def)
  done

lemma discover_min_op_bytes_cases:
  "\<exists>r w'. discover_min_op_bytes env w = Inr (r, w') \<and> r \<in> {0, 512, 1024, 2048, 4096}
      \<and> fd_queues w' = fd_queues w"
  by (simp add: discover_min_op_bytes_def LO_IO_MIN_SIZE_def min_op_loop_512 emit_def)

lemma discover_num_blocks_TrueD:
  assumes "discover_num_blocks cfg env p_dev w = Inr (True, d, w')"
  shows "large_block_ops_bytes cfg \<noteq> 0"
    and "num_large_blocks d = device_bytes env div ucast (large_block_ops_bytes cfg)"
    and "num_large_blocks d \<noteq> 0"
    and "min_op_bytes d \<in> {512, 1024, 2048, 4096}"
    and "num_read_offsets d = num_min_op_blocks cfg d - read_req_min_op_blocks cfg d + 1"
    and "read_bytes d = ucast (read_req_min_op_blocks cfg d * ucast (min_op_bytes d))"
proof -
  obtain r w2 where r: "discover_min_op_bytes env (snd (fd_get (probe_open env) p_dev w)) = Inr (r, w2)"
      "r \<in> {0, 512, 1024, 2048, 4096}"
    using discover_min_op_bytes_cases by blast
  from r(2) have mob: "(ucast r :: u32) \<in> {0, 512, 1024, 2048, 4096}"
    by auto
  note D = assms [unfolded discover_num_blocks_def Let_def, simplified split_beta r(1), simplified]
  show "large_block_ops_bytes cfg \<noteq> 0"
    using D by (auto split: if_splits)
  show "num_large_blocks d = device_bytes env div ucast (large_block_ops_bytes cfg)"
    using D by (auto split: if_splits)
  show "num_large_blocks d \<noteq> 0"
    using D by (auto split: if_splits)
  show "min_op_bytes d \<in> {512, 1024, 2048, 4096}"
    using D mob by (auto split: if_splits)
  show "num_read_offsets d = num_min_op_blocks cfg d - read_req_min_op_blocks cfg d + 1"
    using D by (auto split: if_splits simp: num_min_op_blocks_def read_req_min_op_blocks_def)
  show "read_bytes d = ucast (read_req_min_op_blocks cfg d * ucast (min_op_bytes d))"
    using D by (auto split: if_splits simp: num_min_op_blocks_def read_req_min_op_blocks_def)
qed

lemma unat_u32_lt: "unat (x::u32) < 2 ^ 32"
  using unsigned_less [of x, where 'a = nat] by simp

lemma unat_u64_lt: "unat (x::u64) < 2 ^ 64"
  using unsigned_less [of x, where 'a = nat] by simp

lemma unat_ucast_32_64: "unat (ucast (x::u32) :: u64) = unat x"
proof -
  have "unat x < 2 ^ 64"
    using unat_u32_lt [of x] by simp
  then show ?thesis
    by (simp add: unsigned_ucast_eq take_bit_nat_eq_self_iff)
qed

lemma unat_ucast_64_32: "unat (ucast (x::u64) :: u32) = unat x mod 2 ^ 32"
  by (simp add: unsigned_ucast_eq unsigned_take_bit_eq take_bit_eq_mod)

lemma large_blocks_fit:
  fixes B :: u64 and L :: u32
  shows "unat (B div ucast L) * unat L \<le> unat B"
  by (simp add: unat_div unat_ucast_32_64)

lemma unat_large_blocks_mult:
  fixes B :: u64 and L :: u32
  shows "unat ((B div ucast L) * ucast L) = unat (B div ucast L) * unat L"
proof -
  have "unat (B div ucast L) * unat (ucast L :: u64) < 2 ^ 64"
    using large_blocks_fit [of B L] unat_u64_lt [of B] by (simp add: unat_ucast_32_64)
  then show ?thesis
    by (simp add: unat_mult_lem [THEN iffD1] unat_ucast_32_64)
qed

lemma geometry_nat:
  assumes ok: "discover_num_blocks cfg env p_dev w = Inr (True, d, w')"
  shows "unat (num_large_blocks d) * unat (large_block_ops_bytes cfg) \<le> unat (device_bytes env)"
    and "unat (num_min_op_blocks cfg d) =
      (unat (num_large_blocks d) * unat (large_block_ops_bytes cfg)) div unat (min_op_bytes d)"
    and "unat (read_req_min_op_blocks cfg d) =
      ((unat (record_bytes cfg) + unat (min_op_bytes d) - 1) mod 2 ^ 32) div unat (min_op_bytes d)"
    and "unat (read_bytes d) = unat (read_req_min_op_blocks cfg d) * unat (min_op_bytes d)"
proof -
  note D = discover_num_blocks_TrueD [OF ok]
  have m_pos: "0 < unat (min_op_bytes d)" and m1: "1 \<le> min_op_bytes d"
    using D(4) by auto
  show "unat (num_large_blocks d) * unat (large_block_ops_bytes cfg) \<le> unat (device_bytes env)"
    unfolding D(2) by (rule large_blocks_fit)
  show "unat (num_min_op_blocks cfg d) =
      (unat (num_large_blocks d) * unat (large_block_ops_bytes cfg)) div unat (min_op_bytes d)"
    unfolding num_min_op_blocks_def D(2)
    by (simp add: unat_div unat_large_blocks_mult unat_ucast_32_64)
  have m0: "min_op_bytes d \<noteq> 0"
    using D(4) by auto
  have "record_bytes cfg + min_op_bytes d - 1 = record_bytes cfg + (min_op_bytes d - 1)"
    by simp
  then have "unat (record_bytes cfg + min_op_bytes d - 1) =
      (unat (record_bytes cfg) + (unat (min_op_bytes d) - 1)) mod 2 ^ 32"
    by (simp only: unat_word_ariths(1) unat_minus_one [OF m0]) simp
  then have X: "unat (record_bytes cfg + min_op_bytes d - 1) =
      (unat (record_bytes cfg) + unat (min_op_bytes d) - 1) mod 2 ^ 32"
    using m_pos by simp
  then show rrb': "unat (read_req_min_op_blocks cfg d) =
      ((unat (record_bytes cfg) + unat (min_op_bytes d) - 1) mod 2 ^ 32) div unat (min_op_bytes d)"
    unfolding read_req_min_op_blocks_def
    by (simp add: unat_div unat_ucast_32_64)
  have "unat (read_req_min_op_blocks cfg d) * unat (min_op_bytes d)
      \<le> (unat (record_bytes cfg) + unat (min_op_bytes d) - 1) mod 2 ^ 32"
    unfolding rrb' by simp
  also have "\<dots> < 2 ^ 32"
    by simp
  finally have lt32: "unat (read_req_min_op_blocks cfg d) * unat (min_op_bytes d) < 2 ^ 32" .
  then have "unat (read_req_min_op_blocks cfg d) * unat (ucast (min_op_bytes d) :: u64) < 2 ^ 64"
    by (simp add: unat_ucast_32_64)
  then have "unat (read_req_min_op_blocks cfg d * ucast (min_op_bytes d)) =
      unat (read_req_min_op_blocks cfg d) * unat (min_op_bytes d)"
    by (simp add: unat_mult_lem [THEN iffD1] unat_ucast_32_64)
  with lt32 show "unat (read_bytes d) = unat (read_req_min_op_blocks cfg d) * unat (min_op_bytes d)"
    unfolding D(6) by (simp add: unat_ucast_64_32)
qed

lemmas probe_eval =
  discover_num_blocks_def fd_get_def emit_def discover_min_op_bytes_def cf_valloc_def
  LO_IO_MIN_SIZE_def HI_IO_MIN_SIZE_def min_op_loop_512 device_bytes_def fd_put_def num_min_op_blocks_def
  read_req_min_op_blocks_def

lemma probe_default:
  "discover_num_blocks cfg_default env_1gib dev_blank world_blank =
     Inr (True, dev_default, world_default)"
  by (simp add: probe_eval cfg_default_def env_1gib_def dev_blank_def world_blank_def
      dev_default_def world_default_def)

lemma main_setup_device_InrD:
  assumes "main_setup_device cfg env fd_q hist nm i p_dev w = Inr (d, w')"
  obtains q h d0 w1 where "fd_q = Some q" and "hist = Some h"
    and "discover_num_blocks cfg env (p_dev\<lparr>dev_name := nm, dev_n := i, p_fd_queue := q\<rparr>)
           (w\<lparr>fd_queues := (fd_queues w)(q := [])\<rparr>) = Inr (True, d0, w1)"
    and "d = d0\<lparr>p_raw_read_histogram := h\<rparr>"
  using assms
  by (auto simp: main_setup_device_def Let_def split: option.splits sum.splits if_splits)

text \<open>The geometry of a device that \<open>main\<close> has set up, in natural numbers.\<close>

lemma setup_geometry:
  assumes "main_setup_device cfg env fd_q hist nm i p_dev w = Inr (d, w')"
  shows "large_block_ops_bytes cfg \<noteq> 0"
    and "num_large_blocks d \<noteq> 0"
    and "min_op_bytes d \<in> {512, 1024, 2048, 4096}"
    and "unat (num_large_blocks d) * unat (large_block_ops_bytes cfg) \<le> unat (device_bytes env)"
    and "unat (num_min_op_blocks cfg d) =
      (unat (num_large_blocks d) * unat (large_block_ops_bytes cfg)) div unat (min_op_bytes d)"
    and "unat (read_bytes d) = unat (read_req_min_op_blocks cfg d) * unat (min_op_bytes d)"
    and "num_read_offsets d = num_min_op_blocks cfg d - read_req_min_op_blocks cfg d + 1"
    and "unat (read_req_min_op_blocks cfg d) =
      ((unat (record_bytes cfg) + unat (min_op_bytes d) - 1) mod 2 ^ 32) div unat (min_op_bytes d)"
proof -
  from assms obtain q h d0 w1 where
    probe: "discover_num_blocks cfg env (p_dev\<lparr>dev_name := nm, dev_n := i, p_fd_queue := q\<rparr>)
           (w\<lparr>fd_queues := (fd_queues w)(q := [])\<rparr>) = Inr (True, d0, w1)"
    and d: "d = d0\<lparr>p_raw_read_histogram := h\<rparr>"
    by (rule main_setup_device_InrD)
  note D = discover_num_blocks_TrueD [OF probe]
  note G = geometry_nat [OF probe]
  have same: "num_min_op_blocks cfg d = num_min_op_blocks cfg d0"
    "read_req_min_op_blocks cfg d = read_req_min_op_blocks cfg d0"
    by (simp_all add: d num_min_op_blocks_def read_req_min_op_blocks_def)
  show "large_block_ops_bytes cfg \<noteq> 0"
    by (rule D(1))
  show "num_large_blocks d \<noteq> 0"
    using D(3) by (simp add: d)
  show "min_op_bytes d \<in> {512, 1024, 2048, 4096}"
    using D(4) by (simp add: d)
  show "unat (num_large_blocks d) * unat (large_block_ops_bytes cfg) \<le> unat (device_bytes env)"
    using G(1) by (simp add: d)
  show "unat (num_min_op_blocks cfg d) =
      (unat (num_large_blocks d) * unat (large_block_ops_bytes cfg)) div unat (min_op_bytes d)"
    using G(2) by (simp add: same) (simp add: d)
  show "unat (read_bytes d) = unat (read_req_min_op_blocks cfg d) * unat (min_op_bytes d)"
    using G(4) by (simp add: same) (simp add: d)
  show "num_read_offsets d = num_min_op_blocks cfg d - read_req_min_op_blocks cfg d + 1"
    using D(5) by (simp add: same) (simp add: d)
  show "unat (read_req_min_op_blocks cfg d) =
      ((unat (record_bytes cfg) + unat (min_op_bytes d) - 1) mod 2 ^ 32) div unat (min_op_bytes d)"
    using G(3) by (simp add: same) (simp add: d)
qed

section \<open>The geometry the probe computes\<close>

text \<open>
  What a successful probe computes, in natural numbers: \<open>num_min_op_blocks\<close> is
  \<open>(num_large_blocks * large_block_bytes) / min_op_bytes\<close>, \<open>read_bytes\<close> is
  \<open>read_req_min_op_blocks * min_op_bytes\<close>, and \<open>num_read_offsets\<close> is
  \<open>num_min_op_blocks - read_req_min_op_blocks + 1\<close> in 64-bit arithmetic, without
  wrap-around when \<open>read_req_min_op_blocks\<close> is at most \<open>num_min_op_blocks + 1\<close>. When
  \<open>record_bytes + min_op_bytes\<close> does not exceed \<open>2^32\<close>, \<open>read_req_min_op_blocks\<close> is the
  quotient \<open>record_bytes / min_op_bytes\<close> rounded up. When \<open>record_bytes\<close> is a multiple
  of \<open>min_op_bytes\<close>, \<open>read_bytes\<close> equals \<open>record_bytes\<close>.
\<close>

lemma discover_num_blocks_geometry:
  assumes "discover_num_blocks cfg env p_dev w = Inr (True, d, w')"
  shows "num_read_offsets d = num_min_op_blocks cfg d - read_req_min_op_blocks cfg d + 1
    \<and> unat (num_min_op_blocks cfg d) =
        (unat (num_large_blocks d) * unat (large_block_ops_bytes cfg)) div unat (min_op_bytes d)
    \<and> unat (read_bytes d) = unat (read_req_min_op_blocks cfg d) * unat (min_op_bytes d)
    \<and> (unat (record_bytes cfg) + unat (min_op_bytes d) \<le> 2 ^ 32 \<longrightarrow>
         unat (read_req_min_op_blocks cfg d) =
           (unat (record_bytes cfg) + unat (min_op_bytes d) - 1) div unat (min_op_bytes d))
    \<and> (unat (read_req_min_op_blocks cfg d) \<le> unat (num_min_op_blocks cfg d) + 1 \<longrightarrow>
         unat (num_read_offsets d) =
           unat (num_min_op_blocks cfg d) + 1 - unat (read_req_min_op_blocks cfg d))
    \<and> (unat (min_op_bytes d) dvd unat (record_bytes cfg) \<longrightarrow> read_bytes d = record_bytes cfg)"
proof -
  note D = discover_num_blocks_TrueD [OF assms]
  note G = geometry_nat [OF assms]
  let ?m = "unat (min_op_bytes d)" and ?R = "unat (record_bytes cfg)"
  have m_pos: "0 < ?m"
    using D(4) by auto
  have m_dvd: "?m dvd 2 ^ 32"
  proof -
    have "?m \<in> {2 ^ 9, 2 ^ 10, 2 ^ 11, 2 ^ 12}"
      using D(4) by auto
    then show ?thesis
      by (auto intro: le_imp_power_dvd)
  qed
  have ceil: "unat (read_req_min_op_blocks cfg d) = (?R + ?m - 1) div ?m" if "?R + ?m \<le> 2 ^ 32"
  proof -
    from that m_pos have "?R + ?m - 1 < 2 ^ 32"
      by simp
    then show ?thesis
      unfolding G(3) by simp
  qed
  have nmob_small: "unat (num_min_op_blocks cfg d) < 2 ^ 63"
  proof -
    have "unat (num_min_op_blocks cfg d) * ?m
        \<le> unat (num_large_blocks d) * unat (large_block_ops_bytes cfg)"
      unfolding G(2) by simp
    also have "\<dots> \<le> unat (device_bytes env)"
      by (rule G(1))
    also have "\<dots> < 2 ^ 64"
      by (rule unat_u64_lt)
    finally have "unat (num_min_op_blocks cfg d) * ?m < 2 ^ 64" .
    moreover have "2 \<le> ?m"
      using D(4) by auto
    ultimately have "unat (num_min_op_blocks cfg d) * 2 < 2 ^ 64"
      by (meson le_less_trans mult_le_mono2)
    then show ?thesis
      by simp
  qed
  have nro: "unat (num_read_offsets d) =
      unat (num_min_op_blocks cfg d) + 1 - unat (read_req_min_op_blocks cfg d)"
    if le: "unat (read_req_min_op_blocks cfg d) \<le> unat (num_min_op_blocks cfg d) + 1"
  proof -
    have eq: "num_read_offsets d = (num_min_op_blocks cfg d + 1) - read_req_min_op_blocks cfg d"
      unfolding D(5) by simp
    have one: "unat (num_min_op_blocks cfg d + 1) = unat (num_min_op_blocks cfg d) + 1"
      using nmob_small by (simp add: unat_add_lem [THEN iffD1])
    with le have "read_req_min_op_blocks cfg d \<le> num_min_op_blocks cfg d + 1"
      by (simp add: word_le_nat_alt)
    then show ?thesis
      unfolding eq by (simp add: unat_sub one)
  qed
  have mult: "read_bytes d = record_bytes cfg" if dvd: "?m dvd ?R"
  proof -
    have R_lt: "?R < 2 ^ 32"
      by (rule unat_u32_lt)
    moreover from dvd m_dvd have "?m dvd 2 ^ 32 - ?R"
      by (rule dvd_diff_nat [rotated])
    ultimately have "?m \<le> 2 ^ 32 - ?R"
      by (intro dvd_imp_le) simp_all
    with R_lt have "?R + ?m \<le> 2 ^ 32"
      by simp
    then have "unat (read_req_min_op_blocks cfg d) = (?R + ?m - 1) div ?m"
      by (rule ceil)
    also from dvd obtain k where k: "?R = ?m * k" ..
    have "(?R + ?m - 1) div ?m = k"
    proof -
      have "?R + ?m - 1 = (?m - 1) + k * ?m"
        using k m_pos by (simp add: mult.commute)
      then show ?thesis
        using m_pos by (simp only: div_mult_self1) simp
    qed
    finally have "unat (read_bytes d) = ?R"
      unfolding G(4) using k by simp
    then show ?thesis
      by (simp add: word_unat_eq_iff)
  qed
  from D(5) G(2) G(4) ceil nro mult show ?thesis
    by blast
qed

lemma discover_num_blocks_geometry_default:
  "discover_num_blocks cfg_default env_1gib dev_blank world_blank =
     Inr (True, dev_default, world_default)
   \<and> unat (record_bytes cfg_default) + unat (min_op_bytes dev_default) \<le> 2 ^ 32
   \<and> unat (read_req_min_op_blocks cfg_default dev_default) = 3
   \<and> unat (read_req_min_op_blocks cfg_default dev_default)
       \<le> unat (num_min_op_blocks cfg_default dev_default) + 1
   \<and> unat (num_read_offsets dev_default) = 2097150
   \<and> unat (min_op_bytes dev_default) dvd unat (record_bytes cfg_default)
   \<and> read_bytes dev_default = record_bytes cfg_default"
proof -
  have "unat (record_bytes cfg_default) + unat (min_op_bytes dev_default) \<le> 2 ^ 32
   \<and> unat (read_req_min_op_blocks cfg_default dev_default) = 3
   \<and> unat (read_req_min_op_blocks cfg_default dev_default)
       \<le> unat (num_min_op_blocks cfg_default dev_default) + 1
   \<and> unat (num_read_offsets dev_default) = 2097150
   \<and> unat (min_op_bytes dev_default) dvd unat (record_bytes cfg_default)
   \<and> read_bytes dev_default = record_bytes cfg_default"
    using discover_num_blocks_geometry [OF probe_default]
    by (simp add: cfg_default_def dev_default_def num_min_op_blocks_def
        read_req_min_op_blocks_def)
  with probe_default show ?thesis
    by simp
qed

text \<open>
  C2. The probe is to compute \<open>read_req_blocks\<close> as \<open>record_bytes / min_op_bytes\<close>
  rounded up, \<open>read_bytes\<close> as \<open>read_req_blocks * min_op_bytes\<close> and \<open>num_read_offsets\<close>
  as \<open>num_min_op_blocks - read_req_blocks + 1\<close>. It computes the rounded quotient as
  \<^verbatim>\<open>(g_cfg.record_bytes + p_device->min_op_bytes - 1) / p_device->min_op_bytes\<close> in 32
  bits. With records and large blocks of 4294966272 bytes on a device of 8 GiB that
  reads only at 4096 bytes, the sum wraps around to 3071: the probe succeeds with
  \<open>read_req_min_op_blocks = 0\<close>, \<open>read_bytes = 0\<close> and \<open>num_read_offsets = 2097152\<close>,
  where the quotient rounded up is 1048576 and \<open>num_min_op_blocks - 1048576 + 1\<close> is
  1048576.
\<close>

theorem read_req_min_op_blocks_wraps:
  "(case discover_num_blocks cfg_4g env_8gib_4k dev_blank world_blank of
      Inl f \<Rightarrow> False
    | Inr (ok, d, w') \<Rightarrow>
        ok \<and> min_op_bytes d = 4096 \<and> num_large_blocks d = 2
        \<and> num_min_op_blocks cfg_4g d = 2097151
        \<and> read_req_min_op_blocks cfg_4g d = 0
        \<and> read_bytes d = 0
        \<and> num_read_offsets d = 2097152
        \<and> (unat (record_bytes cfg_4g) + unat (min_op_bytes d) - 1)
             div unat (min_op_bytes d) = 1048576
        \<and> unat (num_min_op_blocks cfg_4g d) - 1048576 + 1 = 1048576)
   \<and> record_bytes cfg_4g \<le> large_block_ops_bytes cfg_4g"
  by (simp add: probe_eval cfg_4g_def cfg_default_def env_8gib_4k_def env_1gib_def dev_blank_def
      world_blank_def)

lemma setup_default:
  "main_setup_device cfg_default env_1gib (Some 0) (Some 0) ''/dev/loop0'' 0 dev_blank world_blank
     = Inr (dev_default, world_ready)"
proof -
  have "dev_blank\<lparr>dev_name := ''/dev/loop0'', dev_n := 0, p_fd_queue := 0\<rparr> = dev_blank"
    by (simp add: dev_blank_def)
  moreover have "world_blank\<lparr>fd_queues := (fd_queues world_blank)(0 := [])\<rparr> = world_blank"
    by (simp add: world_blank_def fun_upd_idem)
  moreover have "dev_default\<lparr>p_raw_read_histogram := 0\<rparr> = dev_default"
    by (simp add: dev_default_def)
  ultimately show ?thesis
    by (simp add: main_setup_device_def probe_default world_ready_def world_default_def)
qed

section \<open>When device setup fails\<close>

text \<open>
  C3 (as amended). The setup of a device in \<open>main\<close> exits with -1 when the queue of
  descriptors is not created or the device does not open. Otherwise, with a large-block
  size of zero, the division \<^verbatim>\<open>device_bytes / g_cfg.large_block_ops_bytes\<close> kills the
  process. Otherwise the setup succeeds exactly when the device holds at least one large
  block, the probe's seek, its buffer allocation and its read at one of the sizes 512,
  1024, 2048, 4096 succeed, and the histogram is created; if not, the process exits
  with -1. In particular it exits when the probe read fails at every size.
  \<open>num_read_offsets\<close> is not examined.
\<close>

theorem setup_fails_iff:
  "(fd_q = None \<or> probe_open env = - 1 \<longrightarrow>
      main_setup_device cfg env fd_q hist nm i p_dev w = Inl (Exit (- 1)))
   \<and> (fd_q \<noteq> None \<and> probe_open env \<noteq> - 1 \<and> large_block_ops_bytes cfg = 0 \<longrightarrow>
        main_setup_device cfg env fd_q hist nm i p_dev w = Inl (Fault DivideByZero))
   \<and> (fd_q \<noteq> None \<and> probe_open env \<noteq> - 1 \<and> large_block_ops_bytes cfg \<noteq> 0 \<longrightarrow>
        (if ucast (large_block_ops_bytes cfg) \<le> device_bytes env
            \<and> probe_lseek env = 0 \<and> cf_valloc (probe_memalign env) 4096 \<noteq> 0
            \<and> (\<exists>sz \<in> {512, 1024, 2048, 4096}. probe_read env sz = sz)
            \<and> hist \<noteq> None
         then \<exists>d w'. main_setup_device cfg env fd_q hist nm i p_dev w = Inr (d, w')
         else main_setup_device cfg env fd_q hist nm i p_dev w = Inl (Exit (- 1))))"
proof (intro conjI impI)
  show "main_setup_device cfg env fd_q hist nm i p_dev w = Inl (Exit (- 1))"
    if "fd_q = None \<or> probe_open env = - 1"
    using that
    by (cases fd_q)
      (auto simp: main_setup_device_def discover_num_blocks_def fd_get_def emit_def Let_def)
  show "main_setup_device cfg env fd_q hist nm i p_dev w = Inl (Fault DivideByZero)"
    if "fd_q \<noteq> None \<and> probe_open env \<noteq> - 1 \<and> large_block_ops_bytes cfg = 0"
    using that
    by (cases fd_q)
      (auto simp: main_setup_device_def discover_num_blocks_def fd_get_def emit_def Let_def)
  show "if ucast (large_block_ops_bytes cfg) \<le> device_bytes env
            \<and> probe_lseek env = 0 \<and> cf_valloc (probe_memalign env) 4096 \<noteq> 0
            \<and> (\<exists>sz \<in> {512, 1024, 2048, 4096}. probe_read env sz = sz)
            \<and> hist \<noteq> None
         then \<exists>d w'. main_setup_device cfg env fd_q hist nm i p_dev w = Inr (d, w')
         else main_setup_device cfg env fd_q hist nm i p_dev w = Inl (Exit (- 1))"
    if h: "fd_q \<noteq> None \<and> probe_open env \<noteq> - 1 \<and> large_block_ops_bytes cfg \<noteq> 0"
  proof -
    from h have L: "0 < unat (large_block_ops_bytes cfg)"
      by (simp add: unat_gt_0)
    have "unat (device_bytes env div ucast (large_block_ops_bytes cfg)) = 0
        \<longleftrightarrow> unat (device_bytes env) < unat (large_block_ops_bytes cfg)"
      using L by (simp add: unat_div unat_ucast_32_64 div_eq_0_iff)
    then have nlb: "device_bytes env div ucast (large_block_ops_bytes cfg) = 0
        \<longleftrightarrow> \<not> ucast (large_block_ops_bytes cfg) \<le> device_bytes env"
      by (simp add: unat_eq_0 word_le_nat_alt unat_ucast_32_64 not_le)
    show ?thesis
      using h nlb
      apply (cases fd_q; cases hist)
      apply (auto simp: main_setup_device_def discover_num_blocks_def fd_get_def emit_def
          discover_min_op_bytes_def LO_IO_MIN_SIZE_def HI_IO_MIN_SIZE_def min_op_loop_512
          fd_put_def Let_def split: if_splits)
      done
  qed
qed

theorem setup_fails_iff_witness:
  "probe_open env_unreadable \<noteq> - 1
   \<and> large_block_ops_bytes cfg_default \<noteq> 0
   \<and> main_setup_device cfg_default env_unreadable (Some 0) (Some 0) ''/dev/loop0'' 0 dev_blank
        world_blank = Inl (Exit (- 1))
   \<and> main_setup_device cfg_default (env_1gib\<lparr>probe_open := - 1\<rparr>) (Some 0) (Some 0)
        ''/dev/loop0'' 0 dev_blank world_blank = Inl (Exit (- 1))
   \<and> main_setup_device (cfg_default\<lparr>large_block_ops_bytes := 0\<rparr>) env_1gib (Some 0) (Some 0)
        ''/dev/loop0'' 0 dev_blank world_blank = Inl (Fault DivideByZero)
   \<and> (\<exists>d w'. main_setup_device cfg_default env_1gib (Some 0) (Some 0) ''/dev/loop0'' 0 dev_blank
        world_blank = Inr (d, w'))"
proof -
  have a: "probe_open env_unreadable \<noteq> - 1 \<and> large_block_ops_bytes cfg_default \<noteq> 0"
    by (simp add: cfg_default_def env_unreadable_def env_1gib_def)
  have "main_setup_device cfg_default env_unreadable (Some 0) (Some 0) ''/dev/loop0'' 0 dev_blank
        world_blank = Inl (Exit (- 1))"
    using setup_fails_iff [of "Some 0" env_unreadable cfg_default "Some 0" "''/dev/loop0''" 0
        dev_blank world_blank]
    by (simp add: cfg_default_def env_unreadable_def env_1gib_def)
  moreover have "main_setup_device cfg_default (env_1gib\<lparr>probe_open := - 1\<rparr>) (Some 0) (Some 0)
        ''/dev/loop0'' 0 dev_blank world_blank = Inl (Exit (- 1))"
    using setup_fails_iff [of "Some 0" "env_1gib\<lparr>probe_open := - 1\<rparr>" cfg_default "Some 0"
        "''/dev/loop0''" 0 dev_blank world_blank]
    by simp
  moreover have "main_setup_device (cfg_default\<lparr>large_block_ops_bytes := 0\<rparr>) env_1gib (Some 0)
        (Some 0) ''/dev/loop0'' 0 dev_blank world_blank = Inl (Fault DivideByZero)"
    using setup_fails_iff [of "Some 0" env_1gib "cfg_default\<lparr>large_block_ops_bytes := 0\<rparr>"
        "Some 0" "''/dev/loop0''" 0 dev_blank world_blank]
    by (simp add: env_1gib_def)
  moreover have "\<exists>d w'. main_setup_device cfg_default env_1gib (Some 0) (Some 0) ''/dev/loop0'' 0
        dev_blank world_blank = Inr (d, w')"
  proof -
    have p: "probe_open env_1gib \<noteq> - 1" "large_block_ops_bytes cfg_default \<noteq> 0"
      by (simp_all add: cfg_default_def env_1gib_def)
    have c: "ucast (large_block_ops_bytes cfg_default) \<le> device_bytes env_1gib
        \<and> probe_lseek env_1gib = 0 \<and> cf_valloc (probe_memalign env_1gib) 4096 \<noteq> 0
        \<and> (\<exists>sz \<in> {512, 1024, 2048, 4096}. probe_read env_1gib sz = sz)"
      by (auto simp: cfg_default_def env_1gib_def device_bytes_def cf_valloc_def)
    from setup_fails_iff [of "Some 0" env_1gib cfg_default "Some 0" "''/dev/loop0''" 0
        dev_blank world_blank] p c
    show ?thesis
      by simp
  qed
  ultimately show ?thesis
    using a by blast
qed

text \<open>
  A device of 4096 bytes that reads only at 4096 bytes, with 3-KiB large blocks and the
  default 1536-byte records: it holds one large block, no whole 4096-byte block of it is
  usable and a read takes one, so \<open>num_read_offsets\<close> is 0, and the setup succeeds.
\<close>

theorem setup_accepts_no_read_offsets:
  "(case main_setup_device cfg_3k env_4k_only (Some 0) (Some 0) ''/dev/loop0'' 0 dev_blank
           world_blank of
      Inl a \<Rightarrow> False
    | Inr (d, w') \<Rightarrow>
        num_large_blocks d = 1 \<and> min_op_bytes d = 4096
        \<and> num_min_op_blocks cfg_3k d = 0 \<and> read_req_min_op_blocks cfg_3k d = 1
        \<and> num_read_offsets d = 0)
   \<and> record_bytes cfg_3k \<le> large_block_ops_bytes cfg_3k"
  by (simp add: main_setup_device_def probe_eval cfg_3k_def cfg_default_def env_4k_only_def
      env_4k_def env_1gib_def dev_blank_def world_blank_def)

text \<open>
  The offset \<open>random_large_block_offset\<close> returns for a device that \<open>main\<close> has set up.
\<close>

lemma large_block_offset_fits:
  assumes "main_setup_device cfg env fd_q hist nm i p_dev w = Inr (d, w')"
  shows "\<exists>off. random_large_block_offset cfg r48 d = Inr off
      \<and> off = (r48 mod num_large_blocks d) * ucast (large_block_ops_bytes cfg)
      \<and> unat (large_block_ops_bytes cfg) dvd unat off
      \<and> unat off + unat (large_block_ops_bytes cfg) \<le> unat (device_bytes env)"
proof -
  note S = setup_geometry [OF assms]
  let ?n = "num_large_blocks d" and ?L = "large_block_ops_bytes cfg"
  let ?off = "(r48 mod ?n) * ucast ?L"
  have n_pos: "0 < unat ?n"
    using S(2) by (simp add: unat_gt_0)
  then have "unat (r48 mod ?n) < unat ?n"
    by (simp add: unat_mod)
  then have "unat (r48 mod ?n) + 1 \<le> unat ?n"
    by simp
  then have "(unat (r48 mod ?n) + 1) * unat ?L \<le> unat ?n * unat ?L"
    by (rule mult_le_mono1)
  with S(4) have fit: "unat (r48 mod ?n) * unat ?L + unat ?L \<le> unat (device_bytes env)"
    by simp
  then have "unat (r48 mod ?n) * unat (ucast ?L :: u64) < 2 ^ 64"
    using unat_u64_lt [of "device_bytes env"] by (simp add: unat_ucast_32_64)
  then have off: "unat ?off = unat (r48 mod ?n) * unat ?L"
    by (simp add: unat_mult_lem [THEN iffD1] unat_ucast_32_64)
  have "random_large_block_offset cfg r48 d = Inr ?off"
    using S(2) by (simp add: random_large_block_offset_def)
  moreover have "unat ?L dvd unat ?off"
    unfolding off by simp
  moreover have "unat ?off + unat ?L \<le> unat (device_bytes env)"
    unfolding off by (rule fit)
  ultimately show ?thesis
    by blast
qed

section \<open>Facts about the I/O engine\<close>

lemma new_events_append [simp]: "trace w' = trace w @ es \<Longrightarrow> new_events w w' = es"
  by (simp add: new_events_def)

lemma fd_get_cases:
  obtains (popped) fd rest where "fd_queues w (p_fd_queue d) = fd # rest"
      "fd_get r d w = (fd, w\<lparr>fd_queues := (fd_queues w)(p_fd_queue d := rest)\<rparr>)"
  | (opened) "fd_queues w (p_fd_queue d) = []" "r \<noteq> - 1"
      "fd_get r d w = (r, w\<lparr>trace := trace w @ [SysOpen (dev_name d)]\<rparr>)"
  | (failed) "fd_queues w (p_fd_queue d) = []" "r = - 1"
      "fd_get r d w = (- 1, w\<lparr>trace := trace w @ [SysOpen (dev_name d), Print ErrOpenDevice]\<rparr>)"
  by (cases "fd_queues w (p_fd_queue d)") (auto simp: fd_get_def emit_def Let_def)

text \<open>What one call of the engine does, case by case.\<close>

lemma read_from_device_cases:
  fixes env d off sz buf w
  defines "r \<equiv> read_from_device env d off sz buf w"
  defines "fd \<equiv> borrowed env d w"
  shows "\<exists>es. trace (snd r) = trace w @ es
      \<and> g_running (snd r) = g_running w
      \<and> g_read_reqs_queued (snd r) = g_read_reqs_queued w
      \<and> req_queues (snd r) = req_queues w
      \<and> histograms (snd r) = histograms w
      \<and> push_indices es = []
      \<and> (\<forall>f p. SysLseek f p \<in> set es \<longrightarrow> p = off)
      \<and> (\<forall>f b l. SysRead f b l \<in> set es \<longrightarrow> b = buf \<and> l = sz)
      \<and> (\<forall>f b l. SysWrite f b l \<notin> set es)
      \<and> Print ErrTooManyReadReqs \<notin> set es
      \<and> (if fd = - 1 then fst r = - 1 \<and> pool d (snd r) = tl (pool d w)
          else if io_lseek_ok env \<and> io_xfer_ok env
          then fst r = cf_getns (io_stop env) \<and> pool d (snd r) = tl (pool d w) @ [fd]
            \<and> SysClose fd \<notin> set es
          else fst r = - 1 \<and> pool d (snd r) = tl (pool d w) \<and> SysClose fd \<in> set es)"
  unfolding r_def fd_def
  by (rule fd_get_cases [of w d "io_open env"])
    (auto simp: read_from_device_def borrowed_def pool_def emit_def fd_put_def Let_def)


lemma write_to_device_cases:
  fixes env d off sz buf w
  defines "r \<equiv> write_to_device env d off sz buf w"
  defines "fd \<equiv> borrowed env d w"
  shows "\<exists>es. trace (snd r) = trace w @ es
      \<and> g_running (snd r) = g_running w
      \<and> g_read_reqs_queued (snd r) = g_read_reqs_queued w
      \<and> req_queues (snd r) = req_queues w
      \<and> histograms (snd r) = histograms w
      \<and> push_indices es = []
      \<and> (\<forall>f p. SysLseek f p \<in> set es \<longrightarrow> p = off)
      \<and> (\<forall>f b l. SysWrite f b l \<in> set es \<longrightarrow> b = buf \<and> l = sz)
      \<and> (\<forall>f b l. SysRead f b l \<notin> set es)
      \<and> (if fd = - 1 then fst r = - 1 \<and> pool d (snd r) = tl (pool d w)
          else if io_lseek_ok env \<and> io_xfer_ok env
          then fst r = cf_getns (io_stop env) \<and> pool d (snd r) = tl (pool d w) @ [fd]
            \<and> SysClose fd \<notin> set es
          else fst r = - 1 \<and> pool d (snd r) = tl (pool d w) \<and> SysClose fd \<in> set es)"
  unfolding r_def fd_def
  by (rule fd_get_cases [of w d "io_open env"])
    (auto simp: write_to_device_def borrowed_def pool_def emit_def fd_put_def Let_def)

lemma histogram_insert_frame [simp]:
  "trace (histogram_insert_data_point h v w) = trace w"
  "g_running (histogram_insert_data_point h v w) = g_running w"
  "g_read_reqs_queued (histogram_insert_data_point h v w) = g_read_reqs_queued w"
  "req_queues (histogram_insert_data_point h v w) = req_queues w"
  "fd_queues (histogram_insert_data_point h v w) = fd_queues w"
  by (simp_all add: histogram_insert_data_point_def)

lemma read_and_report_frame:
  "\<exists>es. trace (read_and_report start env rq buf w) = trace w @ es
      \<and> g_running (read_and_report start env rq buf w) = g_running w
      \<and> g_read_reqs_queued (read_and_report start env rq buf w) = g_read_reqs_queued w
      \<and> req_queues (read_and_report start env rq buf w) = req_queues w
      \<and> push_indices es = []
      \<and> (\<forall>f b l. SysRead f b l \<in> set es \<longrightarrow> b = buf \<and> l = req_size rq)
      \<and> (\<forall>f b l. SysWrite f b l \<notin> set es)
      \<and> Print ErrTooManyReadReqs \<notin> set es
      \<and> (\<forall>f p. SysLseek f p \<in> set es \<longrightarrow> p = req_offset rq)"
  using read_from_device_cases [of env "p_device rq" "req_offset rq" "req_size rq" buf w]
  by (auto simp: read_and_report_def Let_def split: prod.splits)

lemma read_and_report_skips:
  assumes "fst (read_from_device env (p_device rq) (req_offset rq) (req_size rq) buf w) = - 1"
  shows "histograms (read_and_report start env rq buf w) = histograms w"
  using assms read_from_device_cases [of env "p_device rq" "req_offset rq" "req_size rq" buf w]
  by (auto simp: read_and_report_def Let_def split: prod.splits)

lemma read_large_block_skips:
  assumes "random_large_block_offset cfg r48 d = Inr off"
    and "fst (read_from_device env d off (large_block_ops_bytes cfg) buf w) = - 1"
  shows "\<exists>w2. read_and_report_large_block cfg r48 start env d buf w = Inr w2
      \<and> histograms w2 = histograms w \<and> g_running w2 = g_running w"
  using assms read_from_device_cases [of env d off "large_block_ops_bytes cfg" buf w]
  by (auto simp: read_and_report_large_block_def Let_def split: prod.splits)

lemma write_large_block_skips:
  assumes "random_large_block_offset cfg r48 d = Inr off"
    and "fst (write_to_device env d off (large_block_ops_bytes cfg) buf w) = - 1"
  shows "\<exists>w2. write_and_report_large_block cfg r48 start env d buf w = Inr w2
      \<and> histograms w2 = histograms w \<and> g_running w2 = g_running w"
  using assms write_to_device_cases [of env d off "large_block_ops_bytes cfg" buf w]
  by (auto simp: write_and_report_large_block_def Let_def split: prod.splits)



text \<open>The system calls an operation issues once it holds a descriptor.\<close>

lemma read_from_device_issues:
  assumes "borrowed env d w \<noteq> - 1"
  shows "SysLseek (borrowed env d w) off
      \<in> set (new_events w (snd (read_from_device env d off sz buf w)))"
    and "io_lseek_ok env \<Longrightarrow> SysRead (borrowed env d w) buf sz
      \<in> set (new_events w (snd (read_from_device env d off sz buf w)))"
  using assms
  by (rule_tac [!] fd_get_cases [of w d "io_open env"])
    (auto simp: read_from_device_def borrowed_def emit_def fd_put_def Let_def new_events_def)

lemma write_to_device_issues:
  assumes "borrowed env d w \<noteq> - 1"
  shows "SysLseek (borrowed env d w) off
      \<in> set (new_events w (snd (write_to_device env d off sz buf w)))"
    and "io_lseek_ok env \<Longrightarrow> SysWrite (borrowed env d w) buf sz
      \<in> set (new_events w (snd (write_to_device env d off sz buf w)))"
  using assms
  by (rule_tac [!] fd_get_cases [of w d "io_open env"])
    (auto simp: write_to_device_def borrowed_def emit_def fd_put_def Let_def new_events_def)

text \<open>A large-block operation issues the system calls of its one call of the engine.\<close>

lemma read_large_block_events:
  assumes "random_large_block_offset cfg r48 d = Inr off"
  shows "\<exists>w2. read_and_report_large_block cfg r48 start env d buf w = Inr w2
      \<and> new_events w w2
           = new_events w (snd (read_from_device env d off (large_block_ops_bytes cfg) buf w))"
  using assms
  by (simp add: read_and_report_large_block_def Let_def split_beta new_events_def)

lemma write_large_block_events:
  assumes "random_large_block_offset cfg r48 d = Inr off"
  shows "\<exists>w2. write_and_report_large_block cfg r48 start env d buf w = Inr w2
      \<and> new_events w w2
           = new_events w (snd (write_to_device env d off (large_block_ops_bytes cfg) buf w))"
  using assms
  by (simp add: write_and_report_large_block_def Let_def split_beta new_events_def)

lemma read_from_device_calls:
  "SysLseek f p \<in> set (new_events w (snd (read_from_device env d off sz buf w))) \<Longrightarrow> p = off"
  "SysRead f b l \<in> set (new_events w (snd (read_from_device env d off sz buf w)))
    \<Longrightarrow> b = buf \<and> l = sz"
  using read_from_device_cases [of env d off sz buf w] by auto

lemma write_to_device_calls:
  "SysLseek f p \<in> set (new_events w (snd (write_to_device env d off sz buf w))) \<Longrightarrow> p = off"
  "SysWrite f b l \<in> set (new_events w (snd (write_to_device env d off sz buf w)))
    \<Longrightarrow> b = buf \<and> l = sz"
  using write_to_device_cases [of env d off sz buf w] by auto






lemmas run_eval =
  gen_step_def worker_step_def main_start_def Let_def MAX_READ_REQS_QUEUED_def
  random_read_offset_def rand_31_def rand_48_def cf_queue_push_req_def emit_def
  read_and_report_def read_from_device_def fd_get_def fd_put_def
  histogram_insert_data_point_def cf_getns_def safe_delta_ns_def new_events_def

section \<open>Facts about the steps of the threads\<close>

lemma queue_index_nat:
  fixes c :: u64 and nq :: u32
  assumes "nq \<noteq> 0"
  shows "unat (ucast (c mod ucast nq) :: u32) = unat c mod unat nq"
proof -
  have "0 < unat nq"
    using assms by (simp add: unat_gt_0)
  then have "unat c mod unat nq < unat nq"
    by simp
  also have "\<dots> < 2 ^ 32"
    by (rule unat_u32_lt)
  finally show ?thesis
    by (simp add: unat_ucast_64_32 unat_mod unat_ucast_32_64)
qed

lemma gen_step_cases [consumes 1, case_names stutter test over incr push]:
  assumes "gen_step cfg devs r31 hi lo now s = Inr s'"
  obtains "s' = s"
  | "gen_at s = G_test"
    "s' = s\<lparr>gen_at := (if g_running (shared s) then G_incr else G_exit)\<rparr>"
  | "gen_at s = G_incr" "g_read_reqs_queued (shared s) + 1 > 100000"
    "s' = s\<lparr>shared := (shared s)\<lparr>g_read_reqs_queued := g_read_reqs_queued (shared s) + 1,
             trace := trace (shared s) @ [Print ErrTooManyReadReqs, Print ErrDrivesCantKeepUp],
             g_running := False\<rparr>,
           gen_at := G_exit\<rparr>"
  | "gen_at s = G_incr" "\<not> g_read_reqs_queued (shared s) + 1 > 100000"
    "s' = s\<lparr>shared := (shared s)\<lparr>g_read_reqs_queued := g_read_reqs_queued (shared s) + 1\<rparr>,
           gen_at := G_push\<rparr>"
  | d r where "gen_at s = G_push" "num_queues cfg \<noteq> 0"
    "unat (gen_count s) mod unat (num_queues cfg) < length (req_queues (shared s))"
    "d \<in> set devs" "num_read_offsets d \<noteq> 0"
    "r = \<lparr>p_device = d,
          req_offset = (rand_48 hi lo mod num_read_offsets d) * ucast (min_op_bytes d),
          req_size = read_bytes d, start_time = cf_getns now\<rparr>"
    "s' = s\<lparr>shared := (shared s)
             \<lparr>req_queues := (req_queues (shared s))
                [unat (gen_count s) mod unat (num_queues cfg) :=
                   req_queues (shared s) ! (unat (gen_count s) mod unat (num_queues cfg)) @ [r]],
              trace := trace (shared s)
                @ [QueuePush (unat (gen_count s) mod unat (num_queues cfg)) r]\<rparr>,
           gen_count := gen_count s + 1,
           gen_at := G_test\<rparr>"
proof (cases "gen_at s")
  case G_exit
  with assms have "s' = s"
    by (simp add: gen_step_def)
  then show ?thesis
    by (rule that(1))
next
  case G_test
  with assms have "s' = s\<lparr>gen_at := (if g_running (shared s) then G_incr else G_exit)\<rparr>"
    by (simp add: gen_step_def)
  with G_test show ?thesis
    by (rule that(2))
next
  case G_incr
  show ?thesis
  proof (cases "g_read_reqs_queued (shared s) + 1 > 100000")
    case True
    with assms G_incr have "s' = s\<lparr>shared := (shared s)\<lparr>g_read_reqs_queued := g_read_reqs_queued (shared s) + 1,
             trace := trace (shared s) @ [Print ErrTooManyReadReqs, Print ErrDrivesCantKeepUp],
             g_running := False\<rparr>,
           gen_at := G_exit\<rparr>"
      by (simp add: gen_step_def Let_def MAX_READ_REQS_QUEUED_def emit_def)
    with G_incr True show ?thesis
      by (rule that(3))
  next
    case False
    with assms G_incr have "s' = s\<lparr>shared := (shared s)\<lparr>g_read_reqs_queued := g_read_reqs_queued (shared s) + 1\<rparr>,
           gen_at := G_push\<rparr>"
      by (simp add: gen_step_def Let_def MAX_READ_REQS_QUEUED_def emit_def)
    with G_incr False show ?thesis
      by (rule that(4))
  qed
next
  case G_push
  let ?qi = "unat (gen_count s) mod unat (num_queues cfg)"
  let ?k = "unat (rand_31 r31 mod num_devices cfg)"
  let ?d = "devs ! ?k"
  let ?r = "\<lparr>p_device = ?d,
          req_offset = (rand_48 hi lo mod num_read_offsets ?d) * ucast (min_op_bytes ?d),
          req_size = read_bytes ?d, start_time = cf_getns now\<rparr>"
  from assms G_push have nq: "num_queues cfg \<noteq> 0"
    by (auto simp: gen_step_def split: if_splits)
  note qi = queue_index_nat [OF nq, of "gen_count s"]
  from assms G_push nq have nd: "num_devices cfg \<noteq> 0" and k: "?k < length devs"
    by (auto simp: gen_step_def Let_def split: if_splits)
  from assms G_push nq nd k have nro: "num_read_offsets ?d \<noteq> 0"
    by (auto simp: gen_step_def Let_def random_read_offset_def split: if_splits)
  from assms G_push nq nd k nro have len: "?qi < length (req_queues (shared s))"
    by (auto simp: gen_step_def Let_def random_read_offset_def qi split: if_splits)
  from assms G_push nq nd k nro len
  have "s' = s\<lparr>shared := (shared s)
             \<lparr>req_queues := (req_queues (shared s))[?qi := req_queues (shared s) ! ?qi @ [?r]],
              trace := trace (shared s) @ [QueuePush ?qi ?r]\<rparr>,
           gen_count := gen_count s + 1,
           gen_at := G_test\<rparr>"
    by (simp add: gen_step_def Let_def random_read_offset_def qi cf_queue_push_req_def emit_def)
  moreover from k have "?d \<in> set devs"
    by simp
  ultimately show ?thesis
    using G_push nq len nro by (intro that(5) [of ?d ?r]) simp_all
qed

lemma worker_step_cases [consumes 1, case_names stutter test timeout pop read decr]:
  assumes "worker_step i stack_buffer start env s = Inr s'"
  obtains "s' = s"
  | qi where "i < length (workers s)" "workers s ! i = (qi, W_test)"
    "s' = s\<lparr>workers := (workers s)[i := (qi, if g_running (shared s) then W_pop else W_exit)]\<rparr>"
  | qi where "i < length (workers s)" "workers s ! i = (qi, W_pop)"
    "s' = s\<lparr>workers := (workers s)[i := (qi, W_test)]\<rparr>"
  | qi r rest where "i < length (workers s)" "workers s ! i = (qi, W_pop)"
    "qi < length (req_queues (shared s))" "req_queues (shared s) ! qi = r # rest"
    "s' = s\<lparr>shared := (shared s)\<lparr>req_queues := (req_queues (shared s))[qi := rest],
                                 trace := trace (shared s) @ [QueuePop qi r]\<rparr>,
           workers := (workers s)[i := (qi, W_read r)]\<rparr>"
  | qi r w' es where "i < length (workers s)" "workers s ! i = (qi, W_read r)"
    "s' = s\<lparr>shared := w', workers := (workers s)[i := (qi, W_decr)]\<rparr>"
    "trace w' = trace (shared s) @ es" "push_indices es = []"
    "Print ErrTooManyReadReqs \<notin> set es"
    "g_read_reqs_queued w' = g_read_reqs_queued (shared s)"
    "req_queues w' = req_queues (shared s)"
  | qi where "i < length (workers s)" "workers s ! i = (qi, W_decr)"
    "s' = s\<lparr>shared := (shared s)\<lparr>g_read_reqs_queued := g_read_reqs_queued (shared s) - 1\<rparr>,
           workers := (workers s)[i := (qi, W_test)]\<rparr>"
proof (cases "i < length (workers s)")
  case False
  with assms have "s' = s"
    by (simp add: worker_step_def)
  then show ?thesis
    by (rule that(1))
next
  case i: True
  obtain qi pc where at: "workers s ! i = (qi, pc)"
    by (cases "workers s ! i")
  show ?thesis
  proof (cases pc)
    case W_exit
    with assms i at have "s' = s"
      by (simp add: worker_step_def)
    then show ?thesis
      by (rule that(1))
  next
    case W_test
    with assms i at
    have "s' = s\<lparr>workers := (workers s)[i := (qi, if g_running (shared s) then W_pop else W_exit)]\<rparr>"
      by (simp add: worker_step_def)
    with i at W_test show ?thesis
      by (intro that(2) [of qi]) simp_all
  next
    case W_pop
    with assms i at have len: "qi < length (req_queues (shared s))"
      by (auto simp: worker_step_def split: if_splits)
    show ?thesis
    proof (cases "req_queues (shared s) ! qi")
      case Nil
      with assms i at W_pop len have "s' = s\<lparr>workers := (workers s)[i := (qi, W_test)]\<rparr>"
        by (simp add: worker_step_def)
      with i at W_pop show ?thesis
        by (intro that(3) [of qi]) simp_all
    next
      case (Cons r rest)
      with assms i at W_pop len
      have "s' = s\<lparr>shared := (shared s)\<lparr>req_queues := (req_queues (shared s))[qi := rest],
                                 trace := trace (shared s) @ [QueuePop qi r]\<rparr>,
           workers := (workers s)[i := (qi, W_read r)]\<rparr>"
        by (simp add: worker_step_def emit_def)
      with i at W_pop len Cons show ?thesis
        by (intro that(4) [of qi r rest]) simp_all
    qed
  next
    case (W_read r)
    let ?w' = "read_and_report start env r (align_4096 stack_buffer) (shared s)"
    from assms i at W_read
    have s': "s' = s\<lparr>shared := ?w', workers := (workers s)[i := (qi, W_decr)]\<rparr>"
      by (simp add: worker_step_def Let_def)
    obtain es where "trace ?w' = trace (shared s) @ es" "push_indices es = []"
        "Print ErrTooManyReadReqs \<notin> set es"
        "g_read_reqs_queued ?w' = g_read_reqs_queued (shared s)"
        "req_queues ?w' = req_queues (shared s)"
      using read_and_report_frame [of start env r "align_4096 stack_buffer" "shared s"]
      by blast
    with i at W_read s' show ?thesis
      by (intro that(5) [of qi r ?w' es]) simp_all
  next
    case W_decr
    with assms i at
    have "s' = s\<lparr>shared := (shared s)\<lparr>g_read_reqs_queued := g_read_reqs_queued (shared s) - 1\<rparr>,
           workers := (workers s)[i := (qi, W_test)]\<rparr>"
      by (simp add: worker_step_def)
    with i at W_decr show ?thesis
      by (intro that(6) [of qi]) simp_all
  qed
qed

lemma exec_invariant:
  assumes "exec cfg devs sch s = Inr s'" and "P s"
    and "\<And>e t t'. P t \<Longrightarrow> step cfg devs e t = Inr t' \<Longrightarrow> P t'"
  shows "P s'"
  using assms(1,2)
proof (induction sch arbitrary: s)
  case Nil
  then show ?case
    by simp
next
  case (Cons e es)
  then obtain t where t: "step cfg devs e s = Inr t" and rest: "exec cfg devs es t = Inr s'"
    by (auto split: sum.splits)
  from Cons.prems(2) t have "P t"
    by (rule assms(3))
  with rest show ?case
    by (rule Cons.IH)
qed




lemma step_cases [consumes 1, case_names gen worker clear]:
  assumes "step cfg devs e s = Inr s'"
  obtains r31 hi lo now where "gen_step cfg devs r31 hi lo now s = Inr s'"
  | i buf start env where "worker_step i buf start env s = Inr s'"
  | "s' = s\<lparr>shared := (shared s)\<lparr>g_running := False\<rparr>\<rparr>"
  using assms by (cases e) auto







lemma main_start_no_requests:
  "queued_requests (main_start cfg w) = []" "popped_requests (main_start cfg w) = []"
  by (simp_all add: main_start_def queued_requests_def popped_requests_def split_def)






lemma replicate_2: "replicate 2 x = [x, x]"
  by (simp add: numeral_2_eq_2)

lemma upt_0_2: "[0..<2] = [0, Suc 0]"
  by (simp add: numeral_2_eq_2)


lemma run_one_pop:
  "exec cfg_default [dev_default] sched_one_pop (main_start cfg_default world_ready)
     = Inr sys_reading"
  by (simp add: sched_one_pop_def sched_one_read_def run_eval cfg_default_def dev_default_def
      world_ready_def world_default_def ts_1s_def rq_default_def sys_reading_def replicate_2
      upt_0_2)


lemma sum_list_map_update:
  fixes f :: "'a \<Rightarrow> nat"
  assumes "i < length xs"
  shows "sum_list (map f (xs[i := y])) + f (xs ! i) = sum_list (map f xs) + f y"
  using assms
proof (induction xs arbitrary: i)
  case Nil
  then show ?case by simp
next
  case (Cons x xs)
  show ?case
  proof (cases i)
    case 0
    then show ?thesis by simp
  next
    case (Suc j)
    with Cons.prems have "j < length xs"
      by simp
    from Cons.IH [OF this] Suc show ?thesis
      by simp
  qed
qed

lemma in_flight_update:
  assumes "i < length (workers s)" and "workers s ! i = (qi, pc)"
    and "workers s' = (workers s)[i := (qi', pc')]"
  shows "in_flight s' + holds pc = in_flight s + holds pc'"
  using sum_list_map_update [OF assms(1), of "\<lambda>(qi, pc). holds pc" "(qi', pc')"]
  by (simp add: in_flight_def assms(2,3))

lemma queued_length_update:
  assumes "qi < length (req_queues (shared s))"
    and "req_queues (shared s') = (req_queues (shared s))[qi := q]"
  shows "length (queued_requests s') + length (req_queues (shared s) ! qi)
      = length (queued_requests s) + length q"
  using sum_list_map_update [OF assms(1), of length q]
  by (simp add: queued_requests_def length_concat assms(2))

lemma overloads_append:
  assumes "length (trace (shared s0)) \<le> length (trace (shared s))"
    and "trace (shared s') = trace (shared s) @ es"
  shows "overloads s0 s' = overloads s0 s + count_list es (Print ErrTooManyReadReqs)"
    and "length (trace (shared s0)) \<le> length (trace (shared s'))"
  using assms by (simp_all add: overloads_def new_events_def)

lemma overloads_same:
  assumes "trace (shared s') = trace (shared s)"
  shows "overloads s0 s' = overloads s0 s"
  using assms by (simp add: overloads_def new_events_def)


lemma unat_incr_u32:
  fixes c :: u32
  assumes "unat c \<le> 100000"
  shows "unat (c + 1) = unat c + 1"
  using assms by (simp add: unat_add_lem [THEN iffD1])

lemma step_accounted:
  assumes step: "step cfg devs e s = Inr s'" and inv: "reqs_accounted s0 s"
  shows "reqs_accounted s0 s'"
proof -
  note I = inv [unfolded reqs_accounted_def]
  have no_over: "overloads s0 s = 0" if "gen_at s \<noteq> G_exit"
    using I that by auto
  from step show ?thesis
  proof (cases rule: step_cases)
    case (gen r31 hi lo now)
    then show ?thesis
    proof (cases rule: gen_step_cases)
      case stutter
      with inv show ?thesis
        by simp
    next
      case test
      have "gen_at s' \<noteq> G_push"
        by (simp add: test(2))
      then have "pending s' = 0" "pending s = 0"
        by (simp_all add: pending_def test(1))
      moreover have "overloads s0 s = 0"
        by (rule no_over) (simp add: test(1))
      moreover have "overloads s0 s' = overloads s0 s"
        by (rule overloads_same) (simp add: test(2))
      moreover have "queued_requests s' = queued_requests s" "in_flight s' = in_flight s"
        "shared s' = shared s"
        by (simp_all add: test(2) queued_requests_def in_flight_def)
      ultimately show ?thesis
        using I by (simp add: reqs_accounted_def)
    next
      case over
      have o: "overloads s0 s = 0"
        by (rule no_over) (simp add: over(1))
      with I have c: "unat (g_read_reqs_queued (shared s)) \<le> 100000"
        by simp
      have tr: "trace (shared s') = trace (shared s)
          @ [Print ErrTooManyReadReqs, Print ErrDrivesCantKeepUp]"
        by (simp add: over(3))
      from overloads_append [OF _ tr, of s0] I
      have "overloads s0 s' = 1" "length (trace (shared s0)) \<le> length (trace (shared s'))"
        by (simp_all add: o)
      moreover have "unat (g_read_reqs_queued (shared s')) = unat (g_read_reqs_queued (shared s)) + 1"
        by (simp add: over(3) unat_incr_u32 [OF c])
      moreover have "pending s' = 0" "pending s = 0" "gen_at s' = G_exit"
        by (simp_all add: pending_def over(1,3))
      moreover have "queued_requests s' = queued_requests s" "in_flight s' = in_flight s"
        by (simp_all add: over(3) queued_requests_def in_flight_def)
      ultimately show ?thesis
        using I c o by (simp add: reqs_accounted_def)
    next
      case incr
      have o: "overloads s0 s = 0"
        by (rule no_over) (simp add: incr(1))
      with I have c: "unat (g_read_reqs_queued (shared s)) \<le> 100000"
        by simp
      have c': "unat (g_read_reqs_queued (shared s')) = unat (g_read_reqs_queued (shared s)) + 1"
        by (simp add: incr(3) unat_incr_u32 [OF c])
      from incr(2) have "g_read_reqs_queued (shared s) + 1 \<le> 100000"
        by simp
      then have "unat (g_read_reqs_queued (shared s) + 1) \<le> 100000"
        by (simp add: word_le_nat_alt)
      then have b: "unat (g_read_reqs_queued (shared s')) \<le> 100000"
        by (simp add: incr(3))
      have "overloads s0 s' = overloads s0 s"
        by (rule overloads_same) (simp add: incr(3))
      moreover have "pending s' = 1" "pending s = 0" "gen_at s' = G_push"
        by (simp_all add: pending_def incr(1,3))
      moreover have "queued_requests s' = queued_requests s" "in_flight s' = in_flight s"
        "trace (shared s') = trace (shared s)"
        by (simp_all add: incr(3) queued_requests_def in_flight_def)
      ultimately show ?thesis
        using I c' b o by (simp add: reqs_accounted_def)
    next
      case (push d r)
      let ?qi = "unat (gen_count s) mod unat (num_queues cfg)"
      have o: "overloads s0 s = 0"
        by (rule no_over) (simp add: push(1))
      have tr: "trace (shared s') = trace (shared s) @ [QueuePush ?qi r]"
        by (simp add: push(7))
      from overloads_append [OF _ tr, of s0] I
      have "overloads s0 s' = 0" "length (trace (shared s0)) \<le> length (trace (shared s'))"
        by (simp_all add: o)
      moreover have "req_queues (shared s') =
          (req_queues (shared s))[?qi := req_queues (shared s) ! ?qi @ [r]]"
        by (simp add: push(7))
      from queued_length_update [OF push(3) this]
      have "length (queued_requests s') = length (queued_requests s) + 1"
        by simp
      moreover have "pending s' = 0" "pending s = 1"
        by (simp_all add: pending_def push(1,7))
      moreover have "in_flight s' = in_flight s"
        "g_read_reqs_queued (shared s') = g_read_reqs_queued (shared s)"
        by (simp_all add: push(7) in_flight_def)
      ultimately show ?thesis
        using I o by (simp add: reqs_accounted_def)
    qed
  next
    case (worker i buf start env)
    then show ?thesis
    proof (cases rule: worker_step_cases)
      case stutter
      with inv show ?thesis
        by simp
    next
      case (test qi)
      have "workers s' = (workers s)[i := (qi, if g_running (shared s) then W_pop else W_exit)]"
        by (simp add: test(3))
      from in_flight_update [OF test(1,2) this]
      have "in_flight s' = in_flight s"
        by simp
      moreover have "overloads s0 s' = overloads s0 s"
        by (rule overloads_same) (simp add: test(3))
      moreover have "queued_requests s' = queued_requests s" "pending s' = pending s"
        "shared s' = shared s" "gen_at s' = gen_at s"
        by (simp_all add: test(3) queued_requests_def pending_def)
      ultimately show ?thesis
        using I by (simp add: reqs_accounted_def)
    next
      case (timeout qi)
      have "workers s' = (workers s)[i := (qi, W_test)]"
        by (simp add: timeout(3))
      from in_flight_update [OF timeout(1,2) this]
      have "in_flight s' = in_flight s"
        by simp
      moreover have "overloads s0 s' = overloads s0 s"
        by (rule overloads_same) (simp add: timeout(3))
      moreover have "queued_requests s' = queued_requests s" "pending s' = pending s"
        "shared s' = shared s" "gen_at s' = gen_at s"
        by (simp_all add: timeout(3) queued_requests_def pending_def)
      ultimately show ?thesis
        using I by (simp add: reqs_accounted_def)
    next
      case (pop qi r rest)
      have "workers s' = (workers s)[i := (qi, W_read r)]"
        by (simp add: pop(5))
      from in_flight_update [OF pop(1,2) this]
      have "in_flight s' = in_flight s + 1"
        by simp
      moreover have "req_queues (shared s') = (req_queues (shared s))[qi := rest]"
        by (simp add: pop(5))
      from queued_length_update [OF pop(3) this]
      have "length (queued_requests s') + 1 = length (queued_requests s)"
        by (simp add: pop(4))
      moreover have tr: "trace (shared s') = trace (shared s) @ [QueuePop qi r]"
        by (simp add: pop(5))
      from overloads_append [OF _ tr, of s0] I
      have "overloads s0 s' = overloads s0 s"
        "length (trace (shared s0)) \<le> length (trace (shared s'))"
        by simp_all
      moreover have "pending s' = pending s" "gen_at s' = gen_at s"
        "g_read_reqs_queued (shared s') = g_read_reqs_queued (shared s)"
        by (simp_all add: pop(5) pending_def)
      ultimately show ?thesis
        using I by (simp add: reqs_accounted_def)
    next
      case (read qi r w' es)
      have "workers s' = (workers s)[i := (qi, W_decr)]"
        by (simp add: read(3))
      from in_flight_update [OF read(1,2) this]
      have "in_flight s' = in_flight s"
        by simp
      moreover have "queued_requests s' = queued_requests s"
        by (simp add: read(3,8) queued_requests_def)
      moreover have tr: "trace (shared s') = trace (shared s) @ es"
        by (simp add: read(3,4))
      from overloads_append [OF _ tr, of s0] I read(6)
      have "overloads s0 s' = overloads s0 s"
        "length (trace (shared s0)) \<le> length (trace (shared s'))"
        by simp_all
      moreover have "pending s' = pending s" "gen_at s' = gen_at s"
        "g_read_reqs_queued (shared s') = g_read_reqs_queued (shared s)"
        by (simp_all add: read(3,7) pending_def)
      ultimately show ?thesis
        using I by (simp add: reqs_accounted_def)
    next
      case (decr qi)
      have "workers s' = (workers s)[i := (qi, W_test)]"
        by (simp add: decr(3))
      from in_flight_update [OF decr(1,2) this]
      have f: "in_flight s' + 1 = in_flight s"
        by simp
      with I have "unat (g_read_reqs_queued (shared s)) \<noteq> 0"
        by simp
      then have "g_read_reqs_queued (shared s) \<noteq> 0"
        by (simp add: unat_eq_0)
      then have "unat (g_read_reqs_queued (shared s')) + 1 = unat (g_read_reqs_queued (shared s))"
        by (simp add: decr(3) unat_minus_one unat_gt_0)
      moreover have "overloads s0 s' = overloads s0 s"
        by (rule overloads_same) (simp add: decr(3))
      moreover have "queued_requests s' = queued_requests s" "pending s' = pending s"
        "trace (shared s') = trace (shared s)" "gen_at s' = gen_at s"
        by (simp_all add: decr(3) queued_requests_def pending_def)
      ultimately show ?thesis
        using I f by (simp add: reqs_accounted_def)
    qed
  next
    case clear
    have "overloads s0 s' = overloads s0 s"
      by (rule overloads_same) (simp add: clear)
    moreover have "queued_requests s' = queued_requests s" "pending s' = pending s"
      "trace (shared s') = trace (shared s)" "gen_at s' = gen_at s" "in_flight s' = in_flight s"
      "g_read_reqs_queued (shared s') = g_read_reqs_queued (shared s)"
      by (simp_all add: clear queued_requests_def pending_def in_flight_def)
    ultimately show ?thesis
      using I by (simp add: reqs_accounted_def)
  qed
qed

lemma main_start_accounted: "reqs_accounted (main_start cfg w) (main_start cfg w)"
proof -
  have "in_flight (main_start cfg w) = 0"
    by (auto simp: in_flight_def main_start_def)
  moreover have "overloads (main_start cfg w) (main_start cfg w) = 0"
    by (simp add: overloads_def new_events_def)
  moreover have "pending (main_start cfg w) = 0" "g_read_reqs_queued (shared (main_start cfg w)) = 0"
    by (simp_all add: pending_def main_start_def)
  ultimately show ?thesis
    by (simp add: reqs_accounted_def main_start_no_requests)
qed

lemma run_accounted:
  assumes "exec cfg devs sch (main_start cfg w) = Inr s"
  shows "reqs_accounted (main_start cfg w) s"
  using assms
proof (rule exec_invariant)
  show "reqs_accounted (main_start cfg w) (main_start cfg w)"
    by (rule main_start_accounted)
qed (rule step_accounted)

lemma all_joined_idle:
  assumes "all_joined s"
  shows "in_flight s = 0" and "pending s = 0"
  using assms by (auto simp: all_joined_def in_flight_def pending_def list_all_iff)

lemma run_backlog:
  "\<exists>s. exec cfg_default [dev_default] sched_backlog (main_start cfg_default world_ready) = Inr s
     \<and> all_joined s \<and> g_read_reqs_queued (shared s) = 1
     \<and> map length (req_queues (shared s)) = [0, 1]
     \<and> new_events (shared (main_start cfg_default world_ready)) (shared s)
         = [QueuePush 0 rq_default, QueuePop 0 rq_default, QueuePush 1 rq_default,
            SysLseek 3 0, SysRead 3 8192 1536]"
  by (simp add: sched_backlog_def run_eval cfg_default_def dev_default_def world_ready_def
      world_default_def ts_1s_def ts_2s_def io_ok_def align_4096_def rq_default_def
      all_joined_def replicate_2 upt_0_2)

lemma mod_shift_zero:
  fixes x n q :: nat
  assumes "q < n"
  shows "(x + (n - q)) mod n = 0 \<longleftrightarrow> x mod n = q"
proof
  assume "x mod n = q"
  then have "x = n * (x div n) + q"
    by (metis mult_div_mod_eq)
  then have "x + (n - q) = n * (x div n) + n"
    using assms by linarith
  then show "(x + (n - q)) mod n = 0"
    by (metis mod_mult_self2_is_0 mod_add_self2 mult.commute mod_mult_self1 add.commute mod_self)
next
  assume z: "(x + (n - q)) mod n = 0"
  let ?m = "x mod n"
  have m: "?m < n"
    using assms by simp
  have "(?m + (n - q)) mod n = 0"
    using z by (metis mod_add_left_eq)
  then obtain k where k: "?m + (n - q) = n * k"
    by (auto simp: mod_eq_0_iff_dvd elim: dvdE)
  with m assms have "n * k < n * 2" "0 < n * k"
    by linarith+
  then have "k = 1"
    by (cases k; cases "k - 1") auto
  with k assms show "?m = q"
    by simp
qed

lemma count_mod_window:
  fixes a N n q :: nat
  assumes "q < n"
  shows "count_list (map (\<lambda>j. (a + j) mod n) [0..<N]) q + (a + (n - 1 - q)) div n
      = (a + N + (n - 1 - q)) div n"
proof (induction N)
  case 0
  show ?case
    by simp
next
  case (Suc N)
  define t where "t = a + N + (n - 1 - q)"
  have st: "Suc t = (a + N) + (n - q)"
    using assms by (simp add: t_def)
  have "Suc t mod n = 0 \<longleftrightarrow> (a + N) mod n = q"
    unfolding st by (rule mod_shift_zero [OF assms])
  then have "Suc t div n = t div n + (if (a + N) mod n = q then 1 else 0)"
    by (simp add: div_Suc)
  moreover have "a + Suc N + (n - 1 - q) = Suc t"
    by (simp add: t_def)
  moreover have "count_list (map (\<lambda>j. (a + j) mod n) [0..<N]) q + (a + (n - 1 - q)) div n
      = t div n"
    unfolding t_def by (rule Suc.IH)
  ultimately show ?case
    by simp
qed


lemma ceil_div_cases:
  fixes N n :: nat
  assumes "0 < n"
  shows "(N + n - 1) div n = N div n + (if N mod n = 0 then 0 else 1)"
proof -
  define k r where "k = N div n" and "r = N mod n"
  have N: "N = r + k * n" and r: "r < n"
    using assms by (simp_all add: k_def r_def)
  show ?thesis
  proof (cases "r = 0")
    case True
    then have "N + n - 1 = (n - 1) + k * n"
      using N assms by simp
    then have "(N + n - 1) div n = k"
      using assms by (simp only: div_mult_self1) simp
    with True show ?thesis
      by (simp add: k_def r_def)
  next
    case False
    then have "N + n - 1 = (r - 1) + (k + 1) * n"
      using N assms by simp
    moreover have "r - 1 < n"
      using r by simp
    ultimately have "(N + n - 1) div n = k + 1"
      using assms by (simp only: div_mult_self1) simp
    with False show ?thesis
      by (simp add: k_def r_def)
  qed
qed

lemma count_floor_ceil:
  fixes a N n q :: nat
  assumes "q < n"
  shows "count_list (map (\<lambda>j. (a + j) mod n) [0..<N]) q = N div n
    \<or> count_list (map (\<lambda>j. (a + j) mod n) [0..<N]) q = (N + n - 1) div n"
proof -
  let ?c = "count_list (map (\<lambda>j. (a + j) mod n) [0..<N]) q"
  define X where "X = a + (n - 1 - q)"
  define e where "e = (X mod n + N mod n) div n"
  from assms have n: "0 < n"
    by simp
  have "a + N + (n - 1 - q) = X + N"
    by (simp add: X_def)
  with count_mod_window [OF assms, of a N] have "?c + X div n = (X + N) div n"
    by (simp only: X_def)
  also have "\<dots> = X div n + N div n + e"
    unfolding e_def by (rule div_add1_eq)
  finally have c: "?c = N div n + e"
    by simp
  have "X mod n < n" "N mod n < n"
    using n by simp_all
  then have "X mod n + N mod n < 2 * n"
    by linarith
  then have "e < 2"
    unfolding e_def using n by (simp add: less_mult_imp_div_less mult.commute)
  then have e1: "e \<le> 1"
    by simp
  have e0: "e = 0" if "N mod n = 0"
    unfolding e_def using that n by simp
  show ?thesis
  proof (cases "N mod n = 0")
    case True
    with c e0 show ?thesis
      by simp
  next
    case False
    with ceil_div_cases [OF n, of N] have "(N + n - 1) div n = N div n + 1"
      by simp
    with c e1 show ?thesis
      by (cases "e = 0") auto
  qed
qed

lemma push_indices_append: "push_indices (xs @ ys) = push_indices xs @ push_indices ys"
  by (induction xs rule: push_indices.induct) simp_all

lemma new_events_grow:
  assumes "length (trace (shared s0)) \<le> length (trace (shared s))"
    and "trace (shared s') = trace (shared s) @ es"
  shows "new_events (shared s0) (shared s') = new_events (shared s0) (shared s) @ es"
    and "length (trace (shared s0)) \<le> length (trace (shared s'))"
  using assms by (simp_all add: new_events_def)

text \<open>
  The pushes since \<open>s0\<close> went to the queues \<open>count mod num_queues\<close> for the successive
  values of the generator's \<open>count\<close>.
\<close>

lemma step_round_robin:
  assumes step: "step cfg devs e s = Inr s'"
    and len: "length (trace (shared s0)) \<le> length (trace (shared s))"
    and inv: "push_indices (new_events (shared s0) (shared s))
        = map (\<lambda>j. unat (gen_count s0 + of_nat j) mod unat (num_queues cfg)) [0..<k]"
      "gen_count s = gen_count s0 + of_nat k"
  shows "length (trace (shared s0)) \<le> length (trace (shared s'))
    \<and> (\<exists>k'. push_indices (new_events (shared s0) (shared s'))
          = map (\<lambda>j. unat (gen_count s0 + of_nat j) mod unat (num_queues cfg)) [0..<k']
        \<and> gen_count s' = gen_count s0 + of_nat k')"
proof -
  have same: ?thesis if "trace (shared s') = trace (shared s) @ es" "push_indices es = []"
    "gen_count s' = gen_count s" for es
    using new_events_grow [OF len that(1)] inv that(2,3)
    by (auto simp: push_indices_append)
  from step show ?thesis
  proof (cases rule: step_cases)
    case (gen r31 hi lo now)
    then show ?thesis
    proof (cases rule: gen_step_cases)
      case stutter
      show ?thesis
        by (rule same [of "[]"]) (simp_all add: stutter)
    next
      case test
      show ?thesis
        by (rule same [of "[]"]) (simp_all add: test(2))
    next
      case over
      show ?thesis
        by (rule same [of "[Print ErrTooManyReadReqs, Print ErrDrivesCantKeepUp]"])
          (simp_all add: over(3))
    next
      case incr
      show ?thesis
        by (rule same [of "[]"]) (simp_all add: incr(3))
    next
      case (push d r)
      let ?qi = "unat (gen_count s) mod unat (num_queues cfg)"
      have tr: "trace (shared s') = trace (shared s) @ [QueuePush ?qi r]"
        by (simp add: push(7))
      have c: "gen_count s' = gen_count s0 + of_nat (Suc k)"
        by (simp add: push(7) inv(2))
      have "push_indices (new_events (shared s0) (shared s'))
          = map (\<lambda>j. unat (gen_count s0 + of_nat j) mod unat (num_queues cfg)) [0..<Suc k]"
        using new_events_grow(1) [OF len tr] inv
        by (simp add: push_indices_append)
      with new_events_grow(2) [OF len tr] c show ?thesis
        by blast
    qed
  next
    case (worker i buf start env)
    then show ?thesis
    proof (cases rule: worker_step_cases)
      case stutter
      show ?thesis
        by (rule same [of "[]"]) (simp_all add: stutter)
    next
      case (test qi)
      show ?thesis
        by (rule same [of "[]"]) (simp_all add: test(3))
    next
      case (timeout qi)
      show ?thesis
        by (rule same [of "[]"]) (simp_all add: timeout(3))
    next
      case (pop qi r rest)
      show ?thesis
        by (rule same [of "[QueuePop qi r]"]) (simp_all add: pop(5))
    next
      case (read qi r w' es)
      show ?thesis
        by (rule same [of es]) (simp_all add: read(3,4,5))
    next
      case (decr qi)
      show ?thesis
        by (rule same [of "[]"]) (simp_all add: decr(3))
    qed
  next
    case clear
    show ?thesis
      by (rule same [of "[]"]) (simp_all add: clear)
  qed
qed

lemma run_round_robin:
  assumes "exec cfg devs sch s0 = Inr s"
  shows "\<exists>k. push_indices (new_events (shared s0) (shared s))
          = map (\<lambda>j. unat (gen_count s0 + of_nat j) mod unat (num_queues cfg)) [0..<k]"
proof -
  let ?P = "\<lambda>s. length (trace (shared s0)) \<le> length (trace (shared s))
    \<and> (\<exists>k. push_indices (new_events (shared s0) (shared s))
          = map (\<lambda>j. unat (gen_count s0 + of_nat j) mod unat (num_queues cfg)) [0..<k]
        \<and> gen_count s = gen_count s0 + of_nat k)"
  from assms have "?P s"
  proof (rule exec_invariant)
    have "push_indices (new_events (shared s0) (shared s0))
          = map (\<lambda>j. unat (gen_count s0 + of_nat j) mod unat (num_queues cfg)) [0..<0]"
      by (simp add: new_events_def)
    then show "?P s0"
      by (intro conjI exI [of _ 0]) simp_all
  next
    fix e t t'
    assume "?P t" and "step cfg devs e t = Inr t'"
    then show "?P t'"
      using step_round_robin [of cfg devs e t t' s0] by blast
  qed
  then show ?thesis
    by blast
qed

lemma uint_safe_delta_ns:
  "uint (safe_delta_ns start_ns stop_ns) = max 0 (uint stop_ns - uint start_ns)"
proof (cases "start_ns > stop_ns")
  case True
  then have "uint stop_ns < uint start_ns"
    by (simp add: word_less_def)
  with True show ?thesis
    by (simp add: safe_delta_ns_def)
next
  case False
  then have le: "start_ns \<le> stop_ns"
    by simp
  then have "uint (stop_ns - start_ns) = uint stop_ns - uint start_ns"
    by (simp add: uint_minus_simple_alt)
  moreover from le have "uint start_ns \<le> uint stop_ns"
    by (simp add: word_le_def)
  ultimately show ?thesis
    using False by (simp add: safe_delta_ns_def)
qed

lemma read_from_device_stop:
  "fst (read_from_device env d off sz buf w) = - 1
    \<or> fst (read_from_device env d off sz buf w) = cf_getns (io_stop env)"
  using read_from_device_cases [of env d off sz buf w] by (auto split: if_splits)

lemma write_to_device_stop:
  "fst (write_to_device env d off sz buf w) = - 1
    \<or> fst (write_to_device env d off sz buf w) = cf_getns (io_stop env)"
  using write_to_device_cases [of env d off sz buf w] by (auto split: if_splits)

lemma read_and_report_inserts:
  "\<exists>vs. histograms (read_and_report start env rq buf w) h = histograms w h @ vs
     \<and> (\<forall>v \<in> set vs.
           uint v = max 0 (uint (cf_getns (io_stop env)) - uint (cf_getns start))
           \<or> uint v = max 0 (uint (cf_getns (io_stop env)) - uint (start_time rq)))"
proof -
  let ?r = "read_from_device env (p_device rq) (req_offset rq) (req_size rq) buf w"
  have h: "histograms (snd ?r) = histograms w"
    using read_from_device_cases [of env "p_device rq" "req_offset rq" "req_size rq" buf w]
    by auto
  show ?thesis
  proof (cases "fst ?r = - 1")
    case True
    then have "histograms (read_and_report start env rq buf w) h = histograms w h @ []"
      by (simp add: read_and_report_def Let_def split_beta h)
    then show ?thesis
      by (intro exI [of _ "[]"]) simp
  next
    case False
    with read_from_device_stop [of env "p_device rq" "req_offset rq" "req_size rq" buf w]
    have stop: "fst ?r = cf_getns (io_stop env)"
      by simp
    let ?a = "safe_delta_ns (cf_getns start) (cf_getns (io_stop env))"
    let ?b = "safe_delta_ns (start_time rq) (cf_getns (io_stop env))"
    let ?vs = "(if h = RawReadHistogram then [?a] else [])
      @ (if h = ReadHistogram then [?b] else [])
      @ (if h = DeviceRawReadHistogram (p_raw_read_histogram (p_device rq)) then [?a] else [])"
    from False have "histograms (read_and_report start env rq buf w) h = histograms w h @ ?vs"
      by (simp add: read_and_report_def Let_def split_beta h stop
          histogram_insert_data_point_def)
    then show ?thesis
      by (intro exI [of _ ?vs]) (auto simp: uint_safe_delta_ns)
  qed
qed

lemma read_large_block_inserts:
  assumes "read_and_report_large_block cfg r48 start env d buf w = Inr w2"
  shows "\<exists>vs. histograms w2 h = histograms w h @ vs
     \<and> (\<forall>v \<in> set vs.
           uint v = max 0 (uint (cf_getns (io_stop env)) - uint (cf_getns start)))"
proof -
  from assms obtain off where off: "random_large_block_offset cfg r48 d = Inr off"
    by (auto simp: read_and_report_large_block_def split: sum.splits)
  let ?r = "read_from_device env d off (large_block_ops_bytes cfg) buf w"
  have h: "histograms (snd ?r) = histograms w"
    using read_from_device_cases [of env d off "large_block_ops_bytes cfg" buf w] by auto
  show ?thesis
  proof (cases "fst ?r = - 1")
    case True
    with assms off have "histograms w2 h = histograms w h @ []"
      by (auto simp: read_and_report_large_block_def Let_def split_beta h)
    then show ?thesis
      by (intro exI [of _ "[]"]) simp
  next
    case False
    with read_from_device_stop [of env d off "large_block_ops_bytes cfg" buf w]
    have stop: "fst ?r = cf_getns (io_stop env)"
      by simp
    let ?a = "safe_delta_ns (cf_getns start) (cf_getns (io_stop env))"
    let ?vs = "if h = LargeBlockReadHistogram then [?a] else []"
    from False assms off have "histograms w2 h = histograms w h @ ?vs"
      by (auto simp: read_and_report_large_block_def Let_def split_beta h stop
          histogram_insert_data_point_def)
    then show ?thesis
      by (intro exI [of _ ?vs]) (auto simp: uint_safe_delta_ns)
  qed
qed

lemma write_large_block_inserts:
  assumes "write_and_report_large_block cfg r48 start env d buf w = Inr w2"
  shows "\<exists>vs. histograms w2 h = histograms w h @ vs
     \<and> (\<forall>v \<in> set vs.
           uint v = max 0 (uint (cf_getns (io_stop env)) - uint (cf_getns start)))"
proof -
  from assms obtain off where off: "random_large_block_offset cfg r48 d = Inr off"
    by (auto simp: write_and_report_large_block_def split: sum.splits)
  let ?r = "write_to_device env d off (large_block_ops_bytes cfg) buf w"
  have h: "histograms (snd ?r) = histograms w"
    using write_to_device_cases [of env d off "large_block_ops_bytes cfg" buf w] by auto
  show ?thesis
  proof (cases "fst ?r = - 1")
    case True
    with assms off have "histograms w2 h = histograms w h @ []"
      by (auto simp: write_and_report_large_block_def Let_def split_beta h)
    then show ?thesis
      by (intro exI [of _ "[]"]) simp
  next
    case False
    with write_to_device_stop [of env d off "large_block_ops_bytes cfg" buf w]
    have stop: "fst ?r = cf_getns (io_stop env)"
      by simp
    let ?a = "safe_delta_ns (cf_getns start) (cf_getns (io_stop env))"
    let ?vs = "if h = LargeBlockWriteHistogram then [?a] else []"
    from False assms off have "histograms w2 h = histograms w h @ ?vs"
      by (auto simp: write_and_report_large_block_def Let_def split_beta h stop
          histogram_insert_data_point_def)
    then show ?thesis
      by (intro exI [of _ ?vs]) (auto simp: uint_safe_delta_ns)
  qed
qed

section \<open>Facts about the large-block threads\<close>









lemma run_large_block_reads_step_seeks:
  assumes st: "run_large_block_reads_step cfg us d e t w = Inr (t1, w1)"
    and ev: "SysLseek f p \<in> set (new_events w w1)"
  shows "\<exists>r48. random_large_block_offset cfg r48 d = Inr p"
proof (cases "lb_at t")
  case LB_op
  let ?r = "rand_48 (lb_rand_hi e) (lb_rand_lo e)"
  from st LB_op obtain off where off: "random_large_block_offset cfg ?r d = Inr off"
    and op: "read_and_report_large_block cfg ?r (lb_start e) (lb_io e) d (lb_p_buffer t) w
      = Inr w1"
    by (auto simp: run_large_block_reads_step_def read_and_report_large_block_def
        split: sum.splits)
  from read_large_block_events [OF off, of "lb_start e" "lb_io e" "lb_p_buffer t" w] op
  have "new_events w w1 = new_events w (snd (read_from_device (lb_io e) d off
      (large_block_ops_bytes cfg) (lb_p_buffer t) w))"
    by simp
  with ev have "p = off"
    by (simp add: read_from_device_calls)
  with off show ?thesis
    by blast
qed (use st ev in \<open>auto simp: run_large_block_reads_step_def Let_def emit_def new_events_def
    split: if_splits\<close>)

lemma run_large_block_reads_seeks:
  assumes "run_large_block_reads cfg us d turns t = Inr (t', evs)"
    and "SysLseek f p \<in> set evs"
  shows "\<exists>r48. random_large_block_offset cfg r48 d = Inr p"
  using assms
proof (induction turns arbitrary: t evs)
  case Nil
  then show ?case
    by simp
next
  case (Cons a turns)
  obtain e w where a: "a = (e, w)"
    by (cases a)
  from Cons.prems(1) obtain t1 w1 es where
    st: "run_large_block_reads_step cfg us d e t w = Inr (t1, w1)"
    and rest: "run_large_block_reads cfg us d turns t1 = Inr (t', es)"
    and evs: "evs = new_events w w1 @ es"
    by (auto simp: a new_events_def split: sum.splits)
  from Cons.prems(2) evs consider "SysLseek f p \<in> set (new_events w w1)" | "SysLseek f p \<in> set es"
    by auto
  then show ?case
  proof cases
    case 1
    with st show ?thesis
      by (rule run_large_block_reads_step_seeks)
  next
    case 2
    with rest show ?thesis
      by (rule Cons.IH)
  qed
qed

lemma run_large_block_writes_step_seeks:
  assumes st: "run_large_block_writes_step cfg us d e t w = Inr (t1, w1)"
    and ev: "SysLseek f p \<in> set (new_events w w1)"
  shows "\<exists>r48. random_large_block_offset cfg r48 d = Inr p"
proof (cases "lb_at t")
  case LB_op
  let ?r = "rand_48 (lb_rand_hi e) (lb_rand_lo e)"
  from st LB_op obtain off where off: "random_large_block_offset cfg ?r d = Inr off"
    and op: "write_and_report_large_block cfg ?r (lb_start e) (lb_io e) d (lb_p_buffer t) w
      = Inr w1"
    by (auto simp: run_large_block_writes_step_def write_and_report_large_block_def
        split: sum.splits)
  from write_large_block_events [OF off, of "lb_start e" "lb_io e" "lb_p_buffer t" w] op
  have "new_events w w1 = new_events w (snd (write_to_device (lb_io e) d off
      (large_block_ops_bytes cfg) (lb_p_buffer t) w))"
    by simp
  with ev have "p = off"
    by (simp add: write_to_device_calls)
  with off show ?thesis
    by blast
qed (use st ev in \<open>auto simp: run_large_block_writes_step_def Let_def emit_def new_events_def
    split: if_splits\<close>)

lemma run_large_block_writes_seeks:
  assumes "run_large_block_writes cfg us d turns t = Inr (t', evs)"
    and "SysLseek f p \<in> set evs"
  shows "\<exists>r48. random_large_block_offset cfg r48 d = Inr p"
  using assms
proof (induction turns arbitrary: t evs)
  case Nil
  then show ?case
    by simp
next
  case (Cons a turns)
  obtain e w where a: "a = (e, w)"
    by (cases a)
  from Cons.prems(1) obtain t1 w1 es where
    st: "run_large_block_writes_step cfg us d e t w = Inr (t1, w1)"
    and rest: "run_large_block_writes cfg us d turns t1 = Inr (t', es)"
    and evs: "evs = new_events w w1 @ es"
    by (auto simp: a new_events_def split: sum.splits)
  from Cons.prems(2) evs consider "SysLseek f p \<in> set (new_events w w1)" | "SysLseek f p \<in> set es"
    by auto
  then show ?case
  proof cases
    case 1
    with st show ?thesis
      by (rule run_large_block_writes_step_seeks)
  next
    case 2
    with rest show ?thesis
      by (rule Cons.IH)
  qed
qed

text \<open>Four turns of the read thread of the default device.\<close>

lemma run_large_block_reads_default:
  "\<exists>t. run_large_block_reads cfg_default 1000000 dev_default lb_turns lb_thread_start
       = Inr (t, [SysLseek 3 236978176, SysRead 3 65536 131072])
     \<and> lb_at t = LB_test \<and> lb_p_buffer t = 65536 \<and> lb_count t = 1"
  by (simp add: lb_turns_def lb_thread_start_def lb_env_ok_def
      run_large_block_reads_step_def read_and_report_large_block_def
      random_large_block_offset_def run_eval cf_valloc_def cf_getus_def STAGGER_def
      MAX_SLEEP_LAG_USEC_def cfg_default_def dev_default_def world_ready_def world_default_def
      ts_1s_def ts_2s_def io_ok_def)

section \<open>Large-block offsets\<close>

text \<open>
  C8. For a device that \<open>main\<close> has set up, every large-block operation (read or
  write) chooses the offset \<open>(rand_48() mod num_large_blocks) * large_block_bytes\<close>, a
  multiple of \<open>large_block_bytes\<close> with \<open>offset + large_block_bytes\<close> at most the device's
  byte size. The operation seeks to no other offset and transfers \<open>large_block_bytes\<close>
  bytes; once it holds a descriptor it does seek to that offset, and after a successful
  seek it issues the transfer. Every seek of a large-block thread of the device is to
  such an offset.
\<close>

theorem large_block_offset_within_device:
  assumes "main_setup_device cfg env fd_q hist nm i p_dev w0 = Inr (d, w0')"
  shows "\<exists>off. random_large_block_offset cfg r48 d = Inr off
      \<and> off = (r48 mod num_large_blocks d) * ucast (large_block_ops_bytes cfg)
      \<and> unat (large_block_ops_bytes cfg) dvd unat off
      \<and> unat off + unat (large_block_ops_bytes cfg) \<le> unat (device_bytes env)
      \<and> (\<exists>w2. read_and_report_large_block cfg r48 start io d buf w = Inr w2
            \<and> (\<forall>f p. SysLseek f p \<in> set (new_events w w2) \<longrightarrow> p = off)
            \<and> (\<forall>f b l. SysRead f b l \<in> set (new_events w w2) \<longrightarrow>
                  l = large_block_ops_bytes cfg)
            \<and> (borrowed io d w \<noteq> - 1 \<longrightarrow>
                  SysLseek (borrowed io d w) off \<in> set (new_events w w2))
            \<and> (borrowed io d w \<noteq> - 1 \<and> io_lseek_ok io \<longrightarrow>
                  SysRead (borrowed io d w) buf (large_block_ops_bytes cfg)
                    \<in> set (new_events w w2)))
      \<and> (\<exists>w2. write_and_report_large_block cfg r48 start io d buf w = Inr w2
            \<and> (\<forall>f p. SysLseek f p \<in> set (new_events w w2) \<longrightarrow> p = off)
            \<and> (\<forall>f b l. SysWrite f b l \<in> set (new_events w w2) \<longrightarrow>
                  l = large_block_ops_bytes cfg)
            \<and> (borrowed io d w \<noteq> - 1 \<longrightarrow>
                  SysLseek (borrowed io d w) off \<in> set (new_events w w2))
            \<and> (borrowed io d w \<noteq> - 1 \<and> io_lseek_ok io \<longrightarrow>
                  SysWrite (borrowed io d w) buf (large_block_ops_bytes cfg)
                    \<in> set (new_events w w2)))
      \<and> (\<forall>t t' evs f p.
            (run_large_block_reads cfg us d turns t = Inr (t', evs)
              \<or> run_large_block_writes cfg us d turns t = Inr (t', evs))
            \<and> SysLseek f p \<in> set evs \<longrightarrow>
              unat (large_block_ops_bytes cfg) dvd unat p
              \<and> unat p + unat (large_block_ops_bytes cfg) \<le> unat (device_bytes env))"
proof -
  let ?L = "large_block_ops_bytes cfg"
  have T: "unat ?L dvd unat p \<and> unat p + unat ?L \<le> unat (device_bytes env)"
    if "(run_large_block_reads cfg us d turns t = Inr (t', evs)
          \<or> run_large_block_writes cfg us d turns t = Inr (t', evs))
        \<and> SysLseek f p \<in> set evs" for t t' evs f p
  proof -
    from that have "\<exists>r. random_large_block_offset cfg r d = Inr p"
      using run_large_block_reads_seeks [of cfg us d turns t t' evs f p]
        run_large_block_writes_seeks [of cfg us d turns t t' evs f p]
      by blast
    then obtain r where "random_large_block_offset cfg r d = Inr p" ..
    with large_block_offset_fits [OF assms, of r] show ?thesis
      by auto
  qed
  from large_block_offset_fits [OF assms, of r48] obtain off where
    off: "random_large_block_offset cfg r48 d = Inr off"
    and eq: "off = (r48 mod num_large_blocks d) * ucast ?L"
    and dvd: "unat ?L dvd unat off"
    and fit: "unat off + unat ?L \<le> unat (device_bytes env)"
    by blast
  from read_large_block_events [OF off, of start io buf w] obtain wr where
    wr: "read_and_report_large_block cfg r48 start io d buf w = Inr wr"
    and er: "new_events w wr = new_events w (snd (read_from_device io d off ?L buf w))"
    by blast
  from write_large_block_events [OF off, of start io buf w] obtain ww where
    ww: "write_and_report_large_block cfg r48 start io d buf w = Inr ww"
    and ew: "new_events w ww = new_events w (snd (write_to_device io d off ?L buf w))"
    by blast
  have R: "(\<forall>f p. SysLseek f p \<in> set (new_events w wr) \<longrightarrow> p = off)
      \<and> (\<forall>f b l. SysRead f b l \<in> set (new_events w wr) \<longrightarrow> l = ?L)
      \<and> (borrowed io d w \<noteq> - 1 \<longrightarrow> SysLseek (borrowed io d w) off \<in> set (new_events w wr))
      \<and> (borrowed io d w \<noteq> - 1 \<and> io_lseek_ok io \<longrightarrow>
            SysRead (borrowed io d w) buf ?L \<in> set (new_events w wr))"
    unfolding er
  proof (intro conjI allI impI)
    fix f p
    assume "SysLseek f p \<in> set (new_events w (snd (read_from_device io d off ?L buf w)))"
    then show "p = off"
      by (rule read_from_device_calls)
  next
    fix f b l
    assume "SysRead f b l \<in> set (new_events w (snd (read_from_device io d off ?L buf w)))"
    then have "b = buf \<and> l = ?L"
      by (rule read_from_device_calls)
    then show "l = ?L" ..
  next
    assume "borrowed io d w \<noteq> - 1"
    then show "SysLseek (borrowed io d w) off
        \<in> set (new_events w (snd (read_from_device io d off ?L buf w)))"
      by (rule read_from_device_issues)
  next
    assume "borrowed io d w \<noteq> - 1 \<and> io_lseek_ok io"
    then show "SysRead (borrowed io d w) buf ?L
        \<in> set (new_events w (snd (read_from_device io d off ?L buf w)))"
      by (simp add: read_from_device_issues)
  qed
  have W: "(\<forall>f p. SysLseek f p \<in> set (new_events w ww) \<longrightarrow> p = off)
      \<and> (\<forall>f b l. SysWrite f b l \<in> set (new_events w ww) \<longrightarrow> l = ?L)
      \<and> (borrowed io d w \<noteq> - 1 \<longrightarrow> SysLseek (borrowed io d w) off \<in> set (new_events w ww))
      \<and> (borrowed io d w \<noteq> - 1 \<and> io_lseek_ok io \<longrightarrow>
            SysWrite (borrowed io d w) buf ?L \<in> set (new_events w ww))"
    unfolding ew
  proof (intro conjI allI impI)
    fix f p
    assume "SysLseek f p \<in> set (new_events w (snd (write_to_device io d off ?L buf w)))"
    then show "p = off"
      by (rule write_to_device_calls)
  next
    fix f b l
    assume "SysWrite f b l \<in> set (new_events w (snd (write_to_device io d off ?L buf w)))"
    then have "b = buf \<and> l = ?L"
      by (rule write_to_device_calls)
    then show "l = ?L" ..
  next
    assume "borrowed io d w \<noteq> - 1"
    then show "SysLseek (borrowed io d w) off
        \<in> set (new_events w (snd (write_to_device io d off ?L buf w)))"
      by (rule write_to_device_issues)
  next
    assume "borrowed io d w \<noteq> - 1 \<and> io_lseek_ok io"
    then show "SysWrite (borrowed io d w) buf ?L
        \<in> set (new_events w (snd (write_to_device io d off ?L buf w)))"
      by (simp add: write_to_device_issues)
  qed
  from T have T': "\<forall>t t' evs f p.
      (run_large_block_reads cfg us d turns t = Inr (t', evs)
        \<or> run_large_block_writes cfg us d turns t = Inr (t', evs))
      \<and> SysLseek f p \<in> set evs \<longrightarrow>
        unat ?L dvd unat p \<and> unat p + unat ?L \<le> unat (device_bytes env)"
    by (intro allI impI)
  from off eq dvd fit wr R ww W T' show ?thesis
    by blast
qed

theorem large_block_offset_within_device_witness:
  "main_setup_device cfg_default env_1gib (Some 0) (Some 0) ''/dev/loop0'' 0 dev_blank world_blank
     = Inr (dev_default, world_ready)
   \<and> random_large_block_offset cfg_default 10000 dev_default = Inr 236978176
   \<and> unat (large_block_ops_bytes cfg_default) dvd unat (236978176 :: u64)
   \<and> unat (236978176 :: u64) + unat (large_block_ops_bytes cfg_default)
        \<le> unat (device_bytes env_1gib)
   \<and> borrowed io_ok dev_default world_ready = 3
   \<and> io_lseek_ok io_ok
   \<and> (\<exists>w2. read_and_report_large_block cfg_default 10000 ts_1s io_ok dev_default 65536
              world_ready = Inr w2
         \<and> new_events world_ready w2 = [SysLseek 3 236978176, SysRead 3 65536 131072])
   \<and> (\<exists>w2. write_and_report_large_block cfg_default 10000 ts_1s io_ok dev_default 65536
              world_ready = Inr w2
         \<and> new_events world_ready w2 = [SysLseek 3 236978176, SysWrite 3 65536 131072])
   \<and> (\<exists>t. run_large_block_reads cfg_default 1000000 dev_default lb_turns lb_thread_start
          = Inr (t, [SysLseek 3 236978176, SysRead 3 65536 131072]))"
proof -
  from run_large_block_reads_default
  have t: "\<exists>t. run_large_block_reads cfg_default 1000000 dev_default lb_turns lb_thread_start
      = Inr (t, [SysLseek 3 236978176, SysRead 3 65536 131072])"
    by blast
  have b: "borrowed io_ok dev_default world_ready = 3" "io_lseek_ok io_ok"
    by (simp_all add: borrowed_def fd_get_def io_ok_def dev_default_def world_ready_def
        world_default_def)
  have r: "\<exists>w2. read_and_report_large_block cfg_default 10000 ts_1s io_ok dev_default 65536
        world_ready = Inr w2
      \<and> new_events world_ready w2 = [SysLseek 3 236978176, SysRead 3 65536 131072]"
    by (simp add: read_and_report_large_block_def random_large_block_offset_def run_eval
        cfg_default_def dev_default_def world_ready_def world_default_def ts_1s_def ts_2s_def
        io_ok_def)
  have w: "\<exists>w2. write_and_report_large_block cfg_default 10000 ts_1s io_ok dev_default 65536
        world_ready = Inr w2
      \<and> new_events world_ready w2 = [SysLseek 3 236978176, SysWrite 3 65536 131072]"
    by (simp add: write_and_report_large_block_def write_to_device_def
        random_large_block_offset_def run_eval cfg_default_def dev_default_def world_ready_def
        world_default_def ts_1s_def ts_2s_def io_ok_def)
  have "random_large_block_offset cfg_default 10000 dev_default = Inr 236978176
   \<and> unat (large_block_ops_bytes cfg_default) dvd unat (236978176 :: u64)
   \<and> unat (236978176 :: u64) + unat (large_block_ops_bytes cfg_default)
        \<le> unat (device_bytes env_1gib)"
    using large_block_offset_within_device [OF setup_default, of 10000 ts_1s io_ok 65536
        world_ready]
    by (simp add: random_large_block_offset_def cfg_default_def dev_default_def
        device_bytes_def env_1gib_def)
  with setup_default b r w t show ?thesis
    by blast
qed

section \<open>I/O errors\<close>

text \<open>
  C4. For every operation of the engine that was handed a descriptor: if the seek or
  the transfer fails, the descriptor is closed and not put back into the pool and the
  result is -1; the callers then insert nothing into any histogram; \<^verbatim>\<open>g_running\<close> is
  left as it was. If both succeed, the descriptor is put back into the pool, not
  closed, and the result is the clock read after the transfer.
\<close>

theorem io_error_handling:
  assumes got: "borrowed env d w \<noteq> - 1"
  shows "(let r = read_from_device env d off sz buf w; fd = borrowed env d w in
          g_running (snd r) = g_running w
          \<and> (if io_lseek_ok env \<and> io_xfer_ok env
             then fst r = cf_getns (io_stop env) \<and> pool d (snd r) = tl (pool d w) @ [fd]
               \<and> SysClose fd \<notin> set (new_events w (snd r))
             else fst r = - 1 \<and> pool d (snd r) = tl (pool d w)
               \<and> SysClose fd \<in> set (new_events w (snd r))))
    \<and> (let r = write_to_device env d off sz buf w; fd = borrowed env d w in
          g_running (snd r) = g_running w
          \<and> (if io_lseek_ok env \<and> io_xfer_ok env
             then fst r = cf_getns (io_stop env) \<and> pool d (snd r) = tl (pool d w) @ [fd]
               \<and> SysClose fd \<notin> set (new_events w (snd r))
             else fst r = - 1 \<and> pool d (snd r) = tl (pool d w)
               \<and> SysClose fd \<in> set (new_events w (snd r))))
    \<and> g_running (read_and_report start env rq buf w) = g_running w
    \<and> (\<not> (io_lseek_ok env \<and> io_xfer_ok env) \<longrightarrow>
         histograms (read_and_report start env rq buf w) = histograms w
         \<and> (num_large_blocks d \<noteq> 0 \<longrightarrow>
              (\<exists>w2. read_and_report_large_block cfg r48 start env d buf w = Inr w2
                 \<and> histograms w2 = histograms w \<and> g_running w2 = g_running w)
              \<and> (\<exists>w2. write_and_report_large_block cfg r48 start env d buf w = Inr w2
                 \<and> histograms w2 = histograms w \<and> g_running w2 = g_running w)))"
proof -
  have A: "let r = read_from_device env d off sz buf w; fd = borrowed env d w in
          g_running (snd r) = g_running w
          \<and> (if io_lseek_ok env \<and> io_xfer_ok env
             then fst r = cf_getns (io_stop env) \<and> pool d (snd r) = tl (pool d w) @ [fd]
               \<and> SysClose fd \<notin> set (new_events w (snd r))
             else fst r = - 1 \<and> pool d (snd r) = tl (pool d w)
               \<and> SysClose fd \<in> set (new_events w (snd r)))"
    using got read_from_device_cases [of env d off sz buf w]
    by (auto simp: Let_def)
  have B: "let r = write_to_device env d off sz buf w; fd = borrowed env d w in
          g_running (snd r) = g_running w
          \<and> (if io_lseek_ok env \<and> io_xfer_ok env
             then fst r = cf_getns (io_stop env) \<and> pool d (snd r) = tl (pool d w) @ [fd]
               \<and> SysClose fd \<notin> set (new_events w (snd r))
             else fst r = - 1 \<and> pool d (snd r) = tl (pool d w)
               \<and> SysClose fd \<in> set (new_events w (snd r)))"
    using got write_to_device_cases [of env d off sz buf w]
    by (auto simp: Let_def)
  have C: "g_running (read_and_report start env rq buf w) = g_running w"
    using read_and_report_frame [of start env rq buf w] by blast
  have fails: "fst (read_from_device env d' off' sz' buf w) = - 1"
      "fst (write_to_device env d' off' sz' buf w) = - 1"
    if "\<not> (io_lseek_ok env \<and> io_xfer_ok env)" for d' off' sz'
    using that read_from_device_cases [of env d' off' sz' buf w]
      write_to_device_cases [of env d' off' sz' buf w]
    by (auto split: if_splits)
  have D: "histograms (read_and_report start env rq buf w) = histograms w"
    if "\<not> (io_lseek_ok env \<and> io_xfer_ok env)"
    by (rule read_and_report_skips) (rule fails(1) [OF that])
  have E: "(\<exists>w2. read_and_report_large_block cfg r48 start env d buf w = Inr w2
                 \<and> histograms w2 = histograms w \<and> g_running w2 = g_running w)
         \<and> (\<exists>w2. write_and_report_large_block cfg r48 start env d buf w = Inr w2
                 \<and> histograms w2 = histograms w \<and> g_running w2 = g_running w)"
    if bad: "\<not> (io_lseek_ok env \<and> io_xfer_ok env)" and n: "num_large_blocks d \<noteq> 0"
  proof -
    from n obtain off' where off': "random_large_block_offset cfg r48 d = Inr off'"
      by (simp add: random_large_block_offset_def)
    show ?thesis
      using read_large_block_skips [OF off' fails(1) [OF bad]]
        write_large_block_skips [OF off' fails(2) [OF bad]]
      by blast
  qed
  from A B C D E show ?thesis
    by blast
qed

theorem io_error_handling_witness:
  "borrowed io_short dev_default world_ready \<noteq> - 1
   \<and> \<not> (io_lseek_ok io_short \<and> io_xfer_ok io_short)
   \<and> fst (read_from_device io_short dev_default 0 1536 4096 world_ready) = - 1
   \<and> pool dev_default world_ready = [3]
   \<and> pool dev_default (snd (read_from_device io_short dev_default 0 1536 4096 world_ready)) = []
   \<and> SysClose 3 \<in> set (new_events world_ready
         (snd (read_from_device io_short dev_default 0 1536 4096 world_ready)))"
proof -
  have p: "pool dev_default world_ready = [3]"
    by (simp add: pool_def dev_default_def world_ready_def world_default_def)
  have b: "borrowed io_short dev_default world_ready = 3"
    by (simp add: borrowed_def fd_get_def dev_default_def world_ready_def world_default_def)
  then have h: "borrowed io_short dev_default world_ready \<noteq> - 1"
    by simp
  have bad: "\<not> (io_lseek_ok io_short \<and> io_xfer_ok io_short)"
    by (simp add: io_short_def)
  from io_error_handling [OF h, where off = 0 and sz = 1536 and buf = 4096, THEN conjunct1]
  have "fst (read_from_device io_short dev_default 0 1536 4096 world_ready) = - 1
   \<and> pool dev_default (snd (read_from_device io_short dev_default 0 1536 4096 world_ready)) = []
   \<and> SysClose 3 \<in> set (new_events world_ready
         (snd (read_from_device io_short dev_default 0 1536 4096 world_ready)))"
    using bad by (simp add: Let_def b p)
  with p h bad show ?thesis
    by simp
qed

section \<open>Overload in the generator\<close>

text \<open>
  C5 (as amended). After the loop test the generator first increments
  \<^verbatim>\<open>g_read_reqs_queued\<close>. When the incremented value exceeds the constant
  \<open>MAX_READ_REQS_QUEUED\<close> = 100000, it prints the two overload lines, clears
  \<^verbatim>\<open>g_running\<close> and leaves the loop with the queues as they were, and takes no further
  step; otherwise it goes on to build and push a request. The configuration plays no
  part in the test.
\<close>

theorem generator_overload:
  assumes "gen_at s = G_incr"
  shows "gen_step cfg g_devices r31 r48_hi r48_lo now (s\<lparr>gen_at := G_test\<rparr>)
        = Inr (s\<lparr>gen_at := (if g_running (shared s) then G_incr else G_exit)\<rparr>)
    \<and> (\<exists>s'. gen_step cfg g_devices r31 r48_hi r48_lo now s = Inr s'
      \<and> g_read_reqs_queued (shared s') = g_read_reqs_queued (shared s) + 1
      \<and> req_queues (shared s') = req_queues (shared s)
      \<and> (if g_read_reqs_queued (shared s) + 1 > 100000
          then \<not> g_running (shared s') \<and> gen_at s' = G_exit
            \<and> new_events (shared s) (shared s')
                 = [Print ErrTooManyReadReqs, Print ErrDrivesCantKeepUp]
            \<and> gen_step cfg g_devices r31 r48_hi r48_lo now s' = Inr s'
          else g_running (shared s') = g_running (shared s) \<and> gen_at s' = G_push
            \<and> new_events (shared s) (shared s') = []))"
  using assms
  by (simp add: gen_step_def Let_def MAX_READ_REQS_QUEUED_def emit_def new_events_def)

theorem generator_overload_witness:
  "gen_at (sys_at_limit 100000) = G_incr
   \<and> (case gen_step cfg_default [dev_default] 0 0 0 ts_1s (sys_at_limit 100000) of
        Inl f \<Rightarrow> False
      | Inr s' \<Rightarrow> g_read_reqs_queued (shared s') = 100001 \<and> \<not> g_running (shared s')
          \<and> gen_at s' = G_exit \<and> req_queues (shared s') = [[], []])"
proof -
  have h: "gen_at (sys_at_limit 100000) = G_incr"
    by (simp add: sys_at_limit_def)
  from generator_overload [OF h, of cfg_default "[dev_default]" 0 0 0 ts_1s, THEN conjunct2]
  obtain s' where s':
      "gen_step cfg_default [dev_default] 0 0 0 ts_1s (sys_at_limit 100000) = Inr s'"
      "g_read_reqs_queued (shared s') = g_read_reqs_queued (shared (sys_at_limit 100000)) + 1"
      "req_queues (shared s') = req_queues (shared (sys_at_limit 100000))"
      "if g_read_reqs_queued (shared (sys_at_limit 100000)) + 1 > 100000
       then \<not> g_running (shared s') \<and> gen_at s' = G_exit
         \<and> new_events (shared (sys_at_limit 100000)) (shared s')
              = [Print ErrTooManyReadReqs, Print ErrDrivesCantKeepUp]
         \<and> gen_step cfg_default [dev_default] 0 0 0 ts_1s s' = Inr s'
       else g_running (shared s') = g_running (shared (sys_at_limit 100000))
         \<and> gen_at s' = G_push
         \<and> new_events (shared (sys_at_limit 100000)) (shared s') = []"
    by blast
  have "g_read_reqs_queued (shared (sys_at_limit 100000)) = 100000"
    "req_queues (shared (sys_at_limit 100000)) = [[], []]"
    by (simp_all add: sys_at_limit_def)
  with s' h show ?thesis
    by simp
qed

text \<open>
  With \<^verbatim>\<open>max-reqs-queued\<close> configured as 10 and the counter at 10, the generator
  increments to 11, does not flag overload, and pushes a request onto queue 0.
\<close>

theorem configured_threshold_ignored:
  "(case exec (cfg_default\<lparr>max_reqs_queued := 10\<rparr>) [dev_default]
           [RunGen 0 0 0 ts_1s, RunGen 0 0 0 ts_1s] (sys_at_limit 10) of
      Inl f \<Rightarrow> False
    | Inr s' \<Rightarrow> g_read_reqs_queued (shared s') = 11
        \<and> max_reqs_queued (cfg_default\<lparr>max_reqs_queued := 10\<rparr>) = 10
        \<and> g_running (shared s')
        \<and> map length (req_queues (shared s')) = [1, 0]
        \<and> push_indices (new_events (shared (sys_at_limit 10)) (shared s')) = [0])"
  by (simp add: run_eval sys_at_limit_def cfg_default_def dev_default_def world_ready_def
      world_default_def ts_1s_def)

section \<open>Buffers given to the I/O engine\<close>




section \<open>Requests stay within their device\<close>



text \<open>
  Records larger than a large block are outside this statement: with 4-KiB large blocks
  and 8192-byte records a device of 4096 bytes is set up (\<open>num_read_offsets\<close> wraps to
  \<open>2^64 - 7\<close>), and the generator queues a request at offset 51200 of size 8192.
\<close>

lemma request_beyond_device:
  "(case main_setup_devices cfg_4k_8192 inputs_4k 0 world_blank of
      Inl a \<Rightarrow> False
    | Inr (ds, w) \<Rightarrow>
        (case exec cfg_4k_8192 ds sched_push_100 (main_start cfg_4k_8192 w) of
           Inl f \<Rightarrow> False
         | Inr s \<Rightarrow>
             map (\<lambda>r. (unat (req_offset r), unat (req_size r))) (queued_requests s)
               = [(51200, 8192)]))
   \<and> unat (device_bytes env_4k) = 4096"
  by (simp add: inputs_4k_def main_setup_device_def probe_eval cfg_4k_8192_def cfg_default_def
      env_4k_def env_1gib_def dev_blank_def world_blank_def sched_push_100_def run_eval
      ts_1s_def queued_requests_def replicate_2)

section \<open>The request counter at shutdown\<close>

text \<open>
  C7 (as amended). In every state the process reaches, \<^verbatim>\<open>g_read_reqs_queued\<close> equals
  the number of requests in the queues, plus those held by workers, plus the one the
  generator has counted and not yet pushed, plus one if the generator has stopped on
  overload. Once the generator and all workers have returned, it therefore equals the
  number of requests left in the queues, plus one after an overload: it is 0 only if no
  request was left behind.
\<close>

theorem reqs_queued_after_shutdown:
  assumes "exec cfg g_devices sch (main_start cfg w) = Inr s"
  shows "unat (g_read_reqs_queued (shared s))
        = length (queued_requests s) + in_flight s + pending s + overloads (main_start cfg w) s
    \<and> overloads (main_start cfg w) s \<le> 1
    \<and> (all_joined s \<longrightarrow>
         unat (g_read_reqs_queued (shared s))
           = length (queued_requests s) + overloads (main_start cfg w) s)"
  using run_accounted [OF assms] all_joined_idle [of s]
  by (simp add: reqs_accounted_def)

theorem reqs_queued_after_shutdown_witness:
  "(case exec cfg_default [dev_default] sched_backlog (main_start cfg_default world_ready) of
      Inl f \<Rightarrow> False
    | Inr s \<Rightarrow>
        all_joined s
        \<and> length (queued_requests s) = 1
        \<and> unat (g_read_reqs_queued (shared s))
            = length (queued_requests s) + overloads (main_start cfg_default world_ready) s)"
proof -
  from run_backlog obtain s where
    run: "exec cfg_default [dev_default] sched_backlog (main_start cfg_default world_ready) = Inr s"
    and j: "all_joined s" and q: "map length (req_queues (shared s)) = [0, 1]"
    by (elim exE conjE)
  from reqs_queued_after_shutdown [OF run] j
  have "unat (g_read_reqs_queued (shared s))
      = length (queued_requests s) + overloads (main_start cfg_default world_ready) s"
    by blast
  moreover from q have "length (queued_requests s) = 1"
    by (simp add: queued_requests_def length_concat)
  ultimately show ?thesis
    using j by (simp add: run)
qed

text \<open>
  A shutdown with a backlog: two requests are queued, worker 0 completes one,
  \<^verbatim>\<open>g_running\<close> is cleared, and every thread returns. No overload was flagged; one
  request is left in queue 1 and the counter is 1.
\<close>

theorem reqs_queued_left_at_one:
  "(case exec cfg_default [dev_default] sched_backlog (main_start cfg_default world_ready) of
      Inl f \<Rightarrow> False
    | Inr s \<Rightarrow>
        all_joined s \<and> \<not> g_running (shared s)
        \<and> g_read_reqs_queued (shared s) = 1
        \<and> map length (req_queues (shared s)) = [0, 1]
        \<and> Print ErrTooManyReadReqs \<notin> set (trace (shared s)))"
  by (simp add: sched_backlog_def run_eval cfg_default_def dev_default_def world_ready_def
      world_default_def ts_1s_def ts_2s_def io_ok_def align_4096_def
      all_joined_def replicate_2 upt_0_2)

section \<open>Round-robin fan-out\<close>

text \<open>
  C9. The generator pushes the request of the iteration with count \<open>c\<close> onto queue
  \<open>c mod num_queues\<close>. So over any stretch of a run in which it pushes \<open>N\<close> requests
  (\<open>N\<close> consecutive iterations, the 64-bit count not wrapping within them), each queue
  receives \<open>N div num_queues\<close> of them, or that quotient rounded up, whatever the devices
  and whatever the other threads do in between.
\<close>

theorem fan_out_fairness:
  assumes run: "exec cfg g_devices sch s0 = Inr s"
    and nowrap: "unat (gen_count s0) + length (push_indices (new_events (shared s0) (shared s)))
        \<le> 2 ^ 64"
    and q: "q < unat (num_queues cfg)"
  shows "count_list (push_indices (new_events (shared s0) (shared s))) q
        = length (push_indices (new_events (shared s0) (shared s))) div unat (num_queues cfg)
    \<or> count_list (push_indices (new_events (shared s0) (shared s))) q
        = (length (push_indices (new_events (shared s0) (shared s))) + unat (num_queues cfg) - 1)
            div unat (num_queues cfg)"
proof -
  let ?idx = "push_indices (new_events (shared s0) (shared s))"
  let ?n = "unat (num_queues cfg)" and ?a = "unat (gen_count s0)"
  from run_round_robin [OF run] obtain k where
    k: "?idx = map (\<lambda>j. unat (gen_count s0 + of_nat j) mod ?n) [0..<k]"
    by blast
  then have len: "length ?idx = k"
    by simp
  have "unat (gen_count s0 + of_nat j) = ?a + j" if "j < k" for j
  proof -
    from that nowrap len have j: "?a + j < 2 ^ 64"
      by simp
    then have "j < 2 ^ 64"
      by simp
    then have "unat (of_nat j :: u64) = j"
      by (simp add: unat_of_nat)
    with j show ?thesis
      by (simp add: unat_add_lem [THEN iffD1])
  qed
  then have "map (\<lambda>j. unat (gen_count s0 + of_nat j) mod ?n) [0..<k]
      = map (\<lambda>j. (?a + j) mod ?n) [0..<k]"
    by simp
  with k have "?idx = map (\<lambda>j. (?a + j) mod ?n) [0..<k]"
    by simp
  with count_floor_ceil [OF q, of ?a k] len show ?thesis
    by simp
qed

theorem fan_out_fairness_witness:
  "(case exec cfg_default [dev_default] sched_backlog (main_start cfg_default world_ready) of
      Inl f \<Rightarrow> False
    | Inr s \<Rightarrow>
        push_indices (new_events (shared (main_start cfg_default world_ready)) (shared s))
          = [0, 1]
        \<and> count_list
            (push_indices (new_events (shared (main_start cfg_default world_ready)) (shared s)))
            0 = 1)
   \<and> unat (gen_count (main_start cfg_default world_ready)) + 2 \<le> (2 :: nat) ^ 64
   \<and> 0 < unat (num_queues cfg_default)"
proof -
  let ?s0 = "main_start cfg_default world_ready"
  from run_backlog obtain s where
    run: "exec cfg_default [dev_default] sched_backlog ?s0 = Inr s"
    and ev: "new_events (shared ?s0) (shared s)
         = [QueuePush 0 rq_default, QueuePop 0 rq_default, QueuePush 1 rq_default,
            SysLseek 3 0, SysRead 3 8192 1536]"
    by (elim exE conjE)
  have idx: "push_indices (new_events (shared ?s0) (shared s)) = [0, 1]"
    by (simp add: ev)
  have c0: "unat (gen_count ?s0) + 2 \<le> (2 :: nat) ^ 64"
    by (simp add: main_start_def)
  then have nowrap: "unat (gen_count ?s0)
      + length (push_indices (new_events (shared ?s0) (shared s))) \<le> 2 ^ 64"
    by (simp add: idx)
  have q: "0 < unat (num_queues cfg_default)"
    by (simp add: cfg_default_def)
  have n: "unat (num_queues cfg_default) = 2"
    by (simp add: cfg_default_def)
  from fan_out_fairness [OF run nowrap q]
  have "count_list (push_indices (new_events (shared ?s0) (shared s))) 0 = 1"
    by (simp add: idx n)
  with idx c0 q show ?thesis
    by (simp add: run)
qed

section \<open>Latency deltas\<close>

text \<open>
  C10. For all 64-bit start and stop timestamps, \<open>safe_delta_ns\<close> returns
  \<open>stop - start\<close> when \<open>start \<le> stop\<close> and 0 otherwise: read as unsigned numbers,
  the result is \<open>max 0 (stop - start)\<close>, with no wrap-around. Every value that
  \<open>read_and_report\<close> and the two large-block operations insert into a histogram is
  such a difference, of the stop time and the operation's or the request's start time.
\<close>

theorem safe_delta_ns_max:
  "uint (safe_delta_ns start_ns stop_ns) = max 0 (uint stop_ns - uint start_ns)
   \<and> (\<exists>vs. histograms (read_and_report start env rq buf w) h = histograms w h @ vs
        \<and> (\<forall>v \<in> set vs.
              uint v = max 0 (uint (cf_getns (io_stop env)) - uint (cf_getns start))
              \<or> uint v = max 0 (uint (cf_getns (io_stop env)) - uint (start_time rq))))
   \<and> (\<forall>w2. read_and_report_large_block cfg r48 start env d buf w = Inr w2 \<longrightarrow>
        (\<exists>vs. histograms w2 h = histograms w h @ vs
           \<and> (\<forall>v \<in> set vs.
                 uint v = max 0 (uint (cf_getns (io_stop env)) - uint (cf_getns start)))))
   \<and> (\<forall>w2. write_and_report_large_block cfg r48 start env d buf w = Inr w2 \<longrightarrow>
        (\<exists>vs. histograms w2 h = histograms w h @ vs
           \<and> (\<forall>v \<in> set vs.
                 uint v = max 0 (uint (cf_getns (io_stop env)) - uint (cf_getns start)))))"
proof (intro conjI allI impI)
  show "uint (safe_delta_ns start_ns stop_ns) = max 0 (uint stop_ns - uint start_ns)"
    by (rule uint_safe_delta_ns)
  show "\<exists>vs. histograms (read_and_report start env rq buf w) h = histograms w h @ vs
        \<and> (\<forall>v \<in> set vs.
              uint v = max 0 (uint (cf_getns (io_stop env)) - uint (cf_getns start))
              \<or> uint v = max 0 (uint (cf_getns (io_stop env)) - uint (start_time rq)))"
    by (rule read_and_report_inserts)
  show "\<exists>vs. histograms w2 h = histograms w h @ vs
           \<and> (\<forall>v \<in> set vs.
                 uint v = max 0 (uint (cf_getns (io_stop env)) - uint (cf_getns start)))"
    if "read_and_report_large_block cfg r48 start env d buf w = Inr w2" for w2
    using that by (rule read_large_block_inserts)
  show "\<exists>vs. histograms w2 h = histograms w h @ vs
           \<and> (\<forall>v \<in> set vs.
                 uint v = max 0 (uint (cf_getns (io_stop env)) - uint (cf_getns start)))"
    if "write_and_report_large_block cfg r48 start env d buf w = Inr w2" for w2
    using that by (rule write_large_block_inserts)
qed

theorem safe_delta_ns_max_witness:
  "uint (safe_delta_ns (cf_getns ts_2s) (cf_getns ts_1s)) = 0
   \<and> uint (safe_delta_ns (cf_getns ts_1s) (cf_getns ts_2s)) = 1000000000
   \<and> (case read_and_report_large_block cfg_default 10000 ts_1s io_ok dev_default 65536
              world_ready of
         Inl f \<Rightarrow> False
       | Inr w2 \<Rightarrow> histograms w2 LargeBlockReadHistogram = [1000000000])
   \<and> histograms (read_and_report ts_1s io_ok rq_default 8192 world_ready) ReadHistogram
        = [1000000000]"
proof -
  have lb: "\<exists>w2. read_and_report_large_block cfg_default 10000 ts_1s io_ok dev_default 65536
        world_ready = Inr w2 \<and> histograms w2 LargeBlockReadHistogram = [1000000000]"
    by (simp add: read_and_report_large_block_def random_large_block_offset_def run_eval
        cfg_default_def dev_default_def world_ready_def world_default_def ts_1s_def ts_2s_def
        io_ok_def)
  have rr: "histograms (read_and_report ts_1s io_ok rq_default 8192 world_ready) ReadHistogram
        = [1000000000]"
    by (simp add: run_eval rq_default_def dev_default_def world_ready_def world_default_def
        ts_1s_def ts_2s_def io_ok_def)
  from safe_delta_ns_max [of "cf_getns ts_2s" "cf_getns ts_1s"]
  have a: "uint (safe_delta_ns (cf_getns ts_2s) (cf_getns ts_1s)) = 0"
    by (simp add: cf_getns_def ts_1s_def ts_2s_def)
  from safe_delta_ns_max [of "cf_getns ts_1s" "cf_getns ts_2s"]
  have b: "uint (safe_delta_ns (cf_getns ts_1s) (cf_getns ts_2s)) = 1000000000"
    by (simp add: cf_getns_def ts_1s_def ts_2s_def)
  from lb obtain w2 where
    "read_and_report_large_block cfg_default 10000 ts_1s io_ok dev_default 65536 world_ready
      = Inr w2" and "histograms w2 LargeBlockReadHistogram = [1000000000]"
    by (elim exE conjE)
  with a b rr show ?thesis
    by simp
qed

end
